theory Spec2Isabelle
  imports Main "HOL-Library.AList"
begin

section \<open>Gemstone: the supervisor engine\<close>

text \<open>
  A shallow embedding of the Go packages \<open>internal/types\<close>, \<open>internal/logger\<close>,
  \<open>internal/process\<close> (process.go and the Manager) and \<open>internal/stats\<close>.
  Everything the operating system decides (whether a pipe or an exec succeeds, the pid of
  the child, the clock, the contents of a file, the identifier drawn by the uuid library)
  is an explicit argument of the function that asks for it. Every function returns the
  new state, the list of effects it had on the outside world, and the Go error as a value.
  Go's \<open>int\<close> is modelled as \<open>int\<close>. The arithmetic on it is the increment of
  RestartCount, which the guard \<open>RestartCount < MaxRestarts\<close> keeps below the largest
  value, the negation of a pid, and the bounds of slices, so no operation of the model
  leaves the 64-bit range.
\<close>

subsection \<open>internal/types\<close>

datatype ProcessStatus =
    StatusStopped
  | StatusRunning
  | StatusStarting
  | StatusStopping
  | StatusErrored
  | StatusRestarting

text \<open>
  ProcessInfo without the four gauges (Uptime, CPU, Memory, MemoryPercent) that only
  \<open>Info()\<close> fills in, on a copy. A \<open>*time.Time\<close> is an option.
\<close>

record ProcessInfo =
  ID :: string
  Name :: string
  Status :: ProcessStatus
  PID :: int
  Command :: string
  Args :: "string list"
  WorkDir :: string
  Env :: "(string \<times> string) list"
  AutoStart :: bool
  AutoRestart :: bool
  MaxRestarts :: int
  RestartCount :: int
  User :: string
  Group :: string
  CreatedAt :: int
  StartedAt :: "int option"
  StoppedAt :: "int option"

record StartRequest =
  rName :: string
  rCommand :: string
  rArgs :: "string list"
  rWorkDir :: string
  rEnv :: "(string \<times> string) list"
  rAutoStart :: bool
  rAutoRestart :: bool
  rMaxRestarts :: int
  rUser :: string
  rGroup :: string

text \<open>
  The integer fields of a resource sample. The two floating-point gauges are left out;
  a gauge the probe could not read stays zero, as in the source.
\<close>

record ProcessStats =
  sID :: string
  sPID :: int
  sMemory :: nat
  sNumThreads :: int
  sNumFDs :: int
  sReadBytes :: nat
  sWriteBytes :: nat
  sTimestamp :: int

record SystemStats =
  hMemoryTotal :: nat
  hMemoryUsed :: nat
  hDiskTotal :: nat
  hDiskUsed :: nat
  hUptime :: nat
  hTimestamp :: int

text \<open>
  \<open>config.Process\<close>, the persisted definition: the fields that \<open>ToConfig\<close> writes and
  \<open>FromConfig\<close> reads.
\<close>

record Config =
  cID :: string
  cName :: string
  cCommand :: string
  cArgs :: "string list"
  cWorkDir :: string
  cEnv :: "(string \<times> string) list"
  cAutoStart :: bool
  cAutoRestart :: bool
  cMaxRestarts :: int
  cUser :: string
  cGroup :: string

subsection \<open>Errors and effects\<close>

text \<open>One constructor for each error the modelled functions build or pass on.\<close>

datatype error =
    AlreadyRunning string      \<comment> \<open>"process %s is already running"\<close>
  | NotRunning string          \<comment> \<open>"process %s is not running"\<close>
  | CredentialsFailed          \<comment> \<open>"failed to get user credentials"\<close>
  | StdoutPipeFailed           \<comment> \<open>"failed to create stdout pipe"\<close>
  | StderrPipeFailed           \<comment> \<open>"failed to create stderr pipe"\<close>
  | StartFailed                \<comment> \<open>"failed to start process"\<close>
  | LoggerFailed               \<comment> \<open>"failed to create logger"\<close>
  | NameExists string          \<comment> \<open>"process with name %s already exists"\<close>
  | NotFound string            \<comment> \<open>"process %s not found"\<close>
  | OpenFailed                 \<comment> \<open>os.Open, other than a missing file\<close>
  | ScanFailed                 \<comment> \<open>scanner.Err()\<close>
  | ReadFailed                 \<comment> \<open>os.ReadFile, other than a missing file\<close>
  | UnmarshalFailed            \<comment> \<open>json.Unmarshal\<close>
  | WriteFailed                \<comment> \<open>os.WriteFile\<close>
  | CloseFailed                \<comment> \<open>closing a log file\<close>

text \<open>
  The error classes of the specification: InvalidState is what Start answers to a running
  process and what Stop answers to one that is not running.
\<close>

fun is_InvalidState :: "error \<Rightarrow> bool" where
  "is_InvalidState (AlreadyRunning n) = True"
| "is_InvalidState (NotRunning n) = True"
| "is_InvalidState e = False"

datatype signal = SIGTERM | SIGKILL

datatype effect =
    OpenLogFiles string              \<comment> \<open>NewProcessLogger made the directory and its three files\<close>
  | Spawn string "string list" int   \<comment> \<open>cmd.Start(): command, args, pid of the child\<close>
  | GoCaptureOutput string           \<comment> \<open>go p.captureOutput(pipe, tag)\<close>
  | GoWaitForExit                    \<comment> \<open>go p.waitForExit()\<close>
  | CtxCancel                        \<comment> \<open>p.cancel()\<close>
  | Kill int signal                  \<comment> \<open>syscall.Kill(target, sig)\<close>
  | GoKillTimer                      \<comment> \<open>the goroutine that escalates after 5 s\<close>
  | LogLine string string            \<comment> \<open>p.logger.Log(tag, message)\<close>
  | Sleep nat                        \<comment> \<open>time.Sleep, in milliseconds\<close>
  | CloseLogger                      \<comment> \<open>p.logger.Close()\<close>
  | WriteProcessesJson               \<comment> \<open>os.WriteFile(processes.json)\<close>
  | Warn string                      \<comment> \<open>fmt.Printf of a warning\<close>

subsection \<open>internal/logger\<close>

text \<open>
  What \<open>os.Open\<close> followed by the \<open>bufio.Scanner\<close> loop gives for a path: the file
  is missing, it cannot be opened for another reason, or it opens and the scanner yields
  these lines and then reports an error or not.
\<close>

datatype log_file =
    NotExist
  | Unreadable
  | Opened "string list" bool

type_synonym filesystem = "string \<Rightarrow> log_file"

record ProcessLogger =
  lid :: string
  lname :: string
  logDir :: string

text \<open>\<open>filepath.Join\<close> of a directory and one more element; the cleaning of the result
  (\<open>filepath.Clean\<close>) is not modelled.\<close>

definition filepath_Join :: "string \<Rightarrow> string \<Rightarrow> string" where
  "filepath_Join dir file = dir @ ''/'' @ file"

definition readLastLines :: "filesystem \<Rightarrow> string \<Rightarrow> int \<Rightarrow> error + string list" where
  "readLastLines fs path n =
     (case fs path of
        NotExist \<Rightarrow> Inr []
      | Unreadable \<Rightarrow> Inl OpenFailed
      | Opened lines scan_err \<Rightarrow>
          if scan_err then Inl ScanFailed
          else if n \<le> 0 \<or> n \<ge> int (length lines) then Inr lines
          else Inr (drop (length lines - nat n) lines))"

text \<open>\<open>GetLogs\<close> of the logger: the \<open>switch\<close> that picks the file, then the read.\<close>

definition GetLogs_logFile :: "ProcessLogger \<Rightarrow> string \<Rightarrow> string" where
  "GetLogs_logFile l logType =
     (if logType = ''stdout'' then filepath_Join (logDir l) ''stdout.log''
      else if logType = ''stderr'' then filepath_Join (logDir l) ''stderr.log''
      else filepath_Join (logDir l) ''combined.log'')"

definition logger_GetLogs ::
  "ProcessLogger \<Rightarrow> filesystem \<Rightarrow> int \<Rightarrow> string \<Rightarrow> error + string list" where
  "logger_GetLogs l fs lines logType = readLastLines fs (GetLogs_logFile l logType) lines"

definition NewProcessLogger :: "string \<Rightarrow> string \<Rightarrow> string \<Rightarrow> bool \<Rightarrow> error + ProcessLogger" where
  "NewProcessLogger id' name dir files_ok =
     (if files_ok
      then Inr \<lparr>lid = id', lname = name, logDir = filepath_Join dir (name @ ''-'' @ id')\<rparr>
      else Inl LoggerFailed)"

subsection \<open>internal/process: the managed process\<close>

text \<open>
  \<open>cmd\<close> is \<open>p.cmd\<close>: \<open>None\<close> is nil, \<open>Some pid\<close> the command started last, with
  the pid of its child. \<open>has_cancel\<close> says that \<open>p.cancel\<close> is not nil.
\<close>

record Process =
  info :: ProcessInfo
  cmd :: "int option"
  has_cancel :: bool
  logger :: ProcessLogger
  statsHistory :: "ProcessStats list"
  maxHistory :: int

text \<open>What \<open>New\<close> asks of the outside: the first 8 characters of a fresh uuid, the clock,
  and whether the log directory and its three files could be opened. What a failed
  \<open>NewProcessLogger\<close> leaves on disk is not modelled.\<close>

record new_env =
  uuid8 :: string
  new_now :: int
  files_ok :: bool

definition New :: "StartRequest \<Rightarrow> string \<Rightarrow> new_env \<Rightarrow> error + Process" where
  "New req dir e =
     (let id' = uuid8 e;
          info' = \<lparr>ID = id', Name = rName req, Status = StatusStopped, PID = 0,
                   Command = rCommand req, Args = rArgs req, WorkDir = rWorkDir req,
                   Env = rEnv req, AutoStart = rAutoStart req, AutoRestart = rAutoRestart req,
                   MaxRestarts = rMaxRestarts req, RestartCount = 0,
                   User = rUser req, Group = rGroup req, CreatedAt = new_now e,
                   StartedAt = None, StoppedAt = None\<rparr>
      in case NewProcessLogger id' (rName req) dir (files_ok e) of
           Inl err \<Rightarrow> Inl LoggerFailed
         | Inr procLogger \<Rightarrow>
             Inr \<lparr>info = info', cmd = None, has_cancel = False, logger = procLogger,
                  statsHistory = [], maxHistory = 1000\<rparr>)"

definition FromConfig :: "Config \<Rightarrow> string \<Rightarrow> new_env \<Rightarrow> error + Process" where
  "FromConfig cfg dir e =
     (let req = \<lparr>rName = cName cfg, rCommand = cCommand cfg, rArgs = cArgs cfg,
                 rWorkDir = cWorkDir cfg, rEnv = cEnv cfg, rAutoStart = cAutoStart cfg,
                 rAutoRestart = cAutoRestart cfg, rMaxRestarts = cMaxRestarts cfg,
                 rUser = cUser cfg, rGroup = cGroup cfg\<rparr>
      in case New req dir e of
           Inl err \<Rightarrow> Inl err
         | Inr p \<Rightarrow>
             if cID cfg \<noteq> [] then Inr (p\<lparr>info := (info p)\<lparr>ID := cID cfg\<rparr>\<rparr>)
             else Inr p)"

definition set_Status :: "ProcessStatus \<Rightarrow> Process \<Rightarrow> Process" where
  "set_Status s p = p\<lparr>info := (info p)\<lparr>Status := s\<rparr>\<rparr>"

text \<open>What \<open>Start\<close> asks of the outside: whether the user and group resolve, whether each
  pipe can be made, what \<open>cmd.Start()\<close> gives (\<open>None\<close> is its error, \<open>Some pid\<close> the
  child), and the clock.\<close>

record start_env =
  cred_ok :: bool
  stdout_pipe_ok :: bool
  stderr_pipe_ok :: bool
  exec_pid :: "int option"
  start_now :: int

definition Start :: "Process \<Rightarrow> start_env \<Rightarrow> Process \<times> effect list \<times> (error + unit)" where
  "Start p e =
     (if Status (info p) = StatusRunning
      then (p, [], Inl (AlreadyRunning (Name (info p))))
      else
        let p1 = (set_Status StatusStarting p)\<lparr>has_cancel := True\<rparr> in
        if User (info p1) \<noteq> [] \<and> \<not> cred_ok e
        then (set_Status StatusErrored p1, [], Inl CredentialsFailed)
        else if \<not> stdout_pipe_ok e
        then (set_Status StatusErrored p1, [], Inl StdoutPipeFailed)
        else if \<not> stderr_pipe_ok e
        then (set_Status StatusErrored p1, [], Inl StderrPipeFailed)
        else case exec_pid e of
               None \<Rightarrow> (set_Status StatusErrored p1, [], Inl StartFailed)
             | Some pid \<Rightarrow>
                 (p1\<lparr>cmd := Some pid,
                     info := (info p1)\<lparr>PID := pid, Status := StatusRunning,
                                       StartedAt := Some (start_now e), StoppedAt := None\<rparr>\<rparr>,
                  [Spawn (Command (info p1)) (Args (info p1)) pid,
                   GoCaptureOutput ''stdout'', GoCaptureOutput ''stderr'', GoWaitForExit],
                  Inr ()))"

definition Stop :: "Process \<Rightarrow> Process \<times> effect list \<times> (error + unit)" where
  "Stop p =
     (if Status (info p) \<noteq> StatusRunning
      then (p, [], Inl (NotRunning (Name (info p))))
      else
        (set_Status StatusStopping p,
         (if has_cancel p then [CtxCancel] else []) @
         (case cmd p of
            None \<Rightarrow> []
          | Some pid \<Rightarrow> [Kill (- pid) SIGTERM, GoKillTimer]),
         Inr ()))"

text \<open>The goroutine that \<open>Stop\<close> leaves behind, when its 5 seconds are over.\<close>

definition Stop_deadline :: "Process \<Rightarrow> Process \<times> effect list" where
  "Stop_deadline p =
     (if Status (info p) = StatusStopping
      then (p, case cmd p of None \<Rightarrow> [] | Some pid \<Rightarrow> [Kill (- pid) SIGKILL])
      else (p, []))"

text \<open>
  The reaper. \<open>waitForExit_locked\<close> is what it does between \<open>cmd.Wait()\<close> returning and
  the release of the lock: the new state, the effects, and whether it goes on to sleep and
  call Start. \<open>exit_err\<close> says that \<open>cmd.Wait()\<close> gave an error.
\<close>

definition waitForExit_locked :: "Process \<Rightarrow> bool \<Rightarrow> int \<Rightarrow> Process \<times> effect list \<times> bool" where
  "waitForExit_locked p exit_err now =
     (let p1 = p\<lparr>info := (info p)\<lparr>StoppedAt := Some now, PID := 0\<rparr>\<rparr>;
          shouldRestart = (AutoRestart (info p1) \<and> Status (info p1) = StatusRunning);
          logged = (if exit_err then [LogLine ''stderr'' ''Process exited with error''] else [])
      in if shouldRestart \<and> RestartCount (info p1) < MaxRestarts (info p1)
         then (p1\<lparr>info := (info p1)\<lparr>Status := StatusRestarting,
                                    RestartCount := RestartCount (info p1) + 1\<rparr>\<rparr>,
               logged, True)
         else (set_Status StatusStopped p1, logged, False))"

definition waitForExit ::
  "Process \<Rightarrow> bool \<Rightarrow> int \<Rightarrow> start_env \<Rightarrow> Process \<times> effect list" where
  "waitForExit p exit_err now e =
     (case cmd p of
        None \<Rightarrow> (p, [])
      | Some pid \<Rightarrow>
          (case waitForExit_locked p exit_err now of
             (p1, logged, restart) \<Rightarrow>
               if restart
               then (case Start p1 e of
                       (p2, started, r) \<Rightarrow> (p2, logged @ [Sleep 1000] @ started))
               else (p1, logged)))"

text \<open>
  \<open>Restart\<close> polls the status up to 10 times, 500 ms apart, while other goroutines run.
  The one that can end the wait is the reaper: \<open>reap_during = Some i\<close> says that the
  child's exit is handled during the sleep of iteration \<open>i\<close> (counted from 0), \<open>None\<close>
  that it is not handled within the 5 seconds.
\<close>

record restart_env =
  reap_during :: "nat option"
  reap_err :: bool
  reap_now :: int
  restart_start :: start_env

fun poll_Stopped :: "nat \<Rightarrow> nat \<Rightarrow> restart_env \<Rightarrow> Process \<Rightarrow> Process \<times> effect list" where
  "poll_Stopped 0 i e p = (p, [])"
| "poll_Stopped (Suc k) i e p =
     (let p' = (if reap_during e = Some i
                then fst (waitForExit_locked p (reap_err e) (reap_now e)) else p)
      in if Status (info p') = StatusStopped then (p', [Sleep 500])
         else (case poll_Stopped k (Suc i) e p' of
                 (p'', slept) \<Rightarrow> (p'', Sleep 500 # slept)))"

definition Restart :: "Process \<Rightarrow> restart_env \<Rightarrow> Process \<times> effect list \<times> (error + unit)" where
  "Restart p e =
     (if Status (info p) = StatusRunning
      then (case Stop p of
              (p1, stopped, Inl err) \<Rightarrow> (p1, stopped, Inl err)
            | (p1, stopped, Inr u) \<Rightarrow>
                (case poll_Stopped 10 0 e p1 of
                   (p2, slept) \<Rightarrow>
                     (case Start p2 (restart_start e) of
                        (p3, started, r) \<Rightarrow> (p3, stopped @ slept @ started, r))))
      else Start p (restart_start e))"

text \<open>The resource probe: \<open>None\<close> when \<open>process.NewProcess\<close> fails, otherwise the
  readings, zero where the operating system gave none.\<close>

record gauges =
  gMemory :: nat
  gNumThreads :: int
  gNumFDs :: int
  gReadBytes :: nat
  gWriteBytes :: nat

definition Stats :: "Process \<Rightarrow> gauges option \<Rightarrow> int \<Rightarrow> ProcessStats option" where
  "Stats p probe now =
     (if PID (info p) \<le> 0 \<or> Status (info p) \<noteq> StatusRunning then None
      else
        let stats = \<lparr>sID = ID (info p), sPID = PID (info p), sMemory = 0, sNumThreads = 0,
                     sNumFDs = 0, sReadBytes = 0, sWriteBytes = 0, sTimestamp = now\<rparr>
        in case probe of
             None \<Rightarrow> Some stats
           | Some g \<Rightarrow>
               Some (stats\<lparr>sMemory := gMemory g, sNumThreads := gNumThreads g,
                           sNumFDs := gNumFDs g, sReadBytes := gReadBytes g,
                           sWriteBytes := gWriteBytes g\<rparr>))"

text \<open>
  A slice expression \<open>s[k:]\<close> panics when \<open>k\<close> is beyond the length; with
  \<open>len > maxHistory\<close> that is exactly a negative \<open>maxHistory\<close>. The panic is the value
  \<open>None\<close>.
\<close>

definition CollectStats :: "Process \<Rightarrow> gauges option \<Rightarrow> int \<Rightarrow> Process option" where
  "CollectStats p probe now =
     (case Stats p probe now of
        None \<Rightarrow> Some p
      | Some stats \<Rightarrow>
          let h = statsHistory p @ [stats] in
          if int (length h) > maxHistory p
          then (if maxHistory p < 0 then None
                else Some (p\<lparr>statsHistory := drop (nat (int (length h) - maxHistory p)) h\<rparr>))
          else Some (p\<lparr>statsHistory := h\<rparr>))"

definition GetStatsHistory :: "Process \<Rightarrow> int \<Rightarrow> ProcessStats list" where
  "GetStatsHistory p limit =
     (if limit \<le> 0 \<or> limit > int (length (statsHistory p)) then statsHistory p
      else drop (nat (int (length (statsHistory p)) - limit)) (statsHistory p))"

definition GetLogs :: "Process \<Rightarrow> filesystem \<Rightarrow> int \<Rightarrow> string \<Rightarrow> error + string list" where
  "GetLogs p fs lines logType = logger_GetLogs (logger p) fs lines logType"

definition ToConfig :: "Process \<Rightarrow> Config" where
  "ToConfig p =
     \<lparr>cID = ID (info p), cName = Name (info p), cCommand = Command (info p),
      cArgs = Args (info p), cWorkDir = WorkDir (info p), cEnv = Env (info p),
      cAutoStart = AutoStart (info p), cAutoRestart = AutoRestart (info p),
      cMaxRestarts = MaxRestarts (info p), cUser = User (info p), cGroup = Group (info p)\<rparr>"

text \<open>
  One managed process over time. Each event is one critical section of the source: a call
  of Start (by a user, by the boot sequence, or by the reaper after its sleep), a call of
  Stop, the expiry of Stop's timer, the reaper's locked section after the child's exit, a
  call of Restart, and a tick of the statistics collector. \<open>run\<close> is \<open>None\<close> when a
  step panics.
\<close>

datatype event =
    CallStart start_env
  | CallStop
  | StopDeadline
  | ChildExit bool int
  | CallRestart restart_env
  | Tick "gauges option" int

fun step :: "Process \<Rightarrow> event \<Rightarrow> Process option" where
  "step p (CallStart e) = Some (fst (Start p e))"
| "step p CallStop = Some (fst (Stop p))"
| "step p StopDeadline = Some (fst (Stop_deadline p))"
| "step p (ChildExit exit_err now) =
     Some (case cmd p of None \<Rightarrow> p | Some pid \<Rightarrow> fst (waitForExit_locked p exit_err now))"
| "step p (CallRestart e) = Some (fst (Restart p e))"
| "step p (Tick probe now) = CollectStats p probe now"

fun run :: "Process \<Rightarrow> event list \<Rightarrow> Process option" where
  "run p [] = Some p"
| "run p (ev # evs) = (case step p ev of None \<Rightarrow> None | Some p' \<Rightarrow> run p' evs)"

subsection \<open>internal/process: the Manager\<close>

text \<open>
  The map \<open>processes\<close> is a list of pairs of key and process, with distinct keys. The
  order of the list is the order in which a \<open>range\<close> over the map visits the entries,
  which Go leaves unspecified: a property of the Manager has to hold for every order.
  The processes are held by value; an operation that reaches a process through its pointer
  writes the new state back under the same key.
\<close>

record Manager =
  processes :: "(string \<times> Process) list"
  dataDir :: string
  mlogDir :: string

text \<open>The file processes.json as \<open>os.ReadFile\<close> and \<open>json.Unmarshal\<close> see it.\<close>

text \<open>(A \<open>null\<close> among the array's elements is not modelled.)\<close>

datatype json_file =
    Missing
  | ReadError
  | Malformed
  | Array "Config list"

definition findProcess :: "Manager \<Rightarrow> string \<Rightarrow> (string \<times> Process) option" where
  "findProcess m idOrName =
     (case map_of (processes m) idOrName of
        Some p \<Rightarrow> Some (idOrName, p)
      | None \<Rightarrow> find (\<lambda>(id', p). Name (info p) = idOrName) (processes m))"

definition saveProcesses :: "Manager \<Rightarrow> json_file \<Rightarrow> bool \<Rightarrow> json_file \<times> (error + unit)" where
  "saveProcesses m disk write_ok =
     (let configs = map (\<lambda>(id', p). ToConfig p) (processes m)
      in if write_ok then (Array configs, Inr ()) else (disk, Inl WriteFailed))"

record create_env =
  ce_new :: new_env
  ce_start :: start_env
  ce_write_ok :: bool

definition Manager_Start ::
  "Manager \<Rightarrow> json_file \<Rightarrow> StartRequest \<Rightarrow> create_env
   \<Rightarrow> Manager \<times> json_file \<times> effect list \<times> (error + ProcessInfo)" where
  "Manager_Start m disk req e =
     (if list_ex (\<lambda>(id', p). Name (info p) = rName req) (processes m)
      then (m, disk, [], Inl (NameExists (rName req)))
      else
        case New req (mlogDir m) (ce_new e) of
          Inl err \<Rightarrow> (m, disk, [], Inl err)
        | Inr proc \<Rightarrow>
            (case Start proc (ce_start e) of
               (proc', started, Inl err) \<Rightarrow>
                 (m, disk, OpenLogFiles (logDir (logger proc)) # started, Inl err)
             | (proc', started, Inr u) \<Rightarrow>
                 let m' = m\<lparr>processes := AList.update (ID (info proc')) proc' (processes m)\<rparr>
                 in (case saveProcesses m' disk (ce_write_ok e) of
                       (disk', Inl err) \<Rightarrow>
                         (m', disk',
                          OpenLogFiles (logDir (logger proc)) # started @
                            [WriteProcessesJson, Warn ''failed to save processes''],
                          Inr (info proc'))
                     | (disk', Inr u') \<Rightarrow>
                         (m', disk',
                          OpenLogFiles (logDir (logger proc)) # started @ [WriteProcessesJson],
                          Inr (info proc')))))"

definition Manager_Stop ::
  "Manager \<Rightarrow> string \<Rightarrow> Manager \<times> effect list \<times> (error + unit)" where
  "Manager_Stop m idOrName =
     (case findProcess m idOrName of
        None \<Rightarrow> (m, [], Inl (NotFound idOrName))
      | Some (id', proc) \<Rightarrow>
          (case Stop proc of
             (proc', effs, r) \<Rightarrow>
               (m\<lparr>processes := AList.update id' proc' (processes m)\<rparr>, effs, r)))"

definition Manager_Restart ::
  "Manager \<Rightarrow> string \<Rightarrow> restart_env \<Rightarrow> Manager \<times> effect list \<times> (error + unit)" where
  "Manager_Restart m idOrName e =
     (case findProcess m idOrName of
        None \<Rightarrow> (m, [], Inl (NotFound idOrName))
      | Some (id', proc) \<Rightarrow>
          (case Restart proc e of
             (proc', effs, r) \<Rightarrow>
               (m\<lparr>processes := AList.update id' proc' (processes m)\<rparr>, effs, r)))"

text \<open>
  \<open>Delete\<close> has its own loop over the map: the first entry the \<open>range\<close> visits whose
  key or whose name equals the reference is the one it takes.
\<close>

definition Manager_Delete ::
  "Manager \<Rightarrow> json_file \<Rightarrow> string \<Rightarrow> bool
   \<Rightarrow> Manager \<times> json_file \<times> effect list \<times> (error + unit)" where
  "Manager_Delete m disk idOrName write_ok =
     (case find (\<lambda>(id', p). id' = idOrName \<or> Name (info p) = idOrName) (processes m) of
        None \<Rightarrow> (m, disk, [], Inl (NotFound idOrName))
      | Some (id', p) \<Rightarrow>
          (case (if Status (info p) = StatusRunning then Stop p else (p, [], Inr ())) of
             (p', stopped, Inl err) \<Rightarrow>
               (m\<lparr>processes := AList.update id' p' (processes m)\<rparr>, disk, stopped, Inl err)
           | (p', stopped, Inr u) \<Rightarrow>
               if id' = []
               then (m\<lparr>processes := AList.update id' p' (processes m)\<rparr>, disk,
                     stopped @ [CloseLogger], Inl (NotFound idOrName))
               else
                 let m' = m\<lparr>processes := AList.delete id' (processes m)\<rparr>
                 in (case saveProcesses m' disk write_ok of
                       (disk', r) \<Rightarrow>
                         (m', disk', stopped @ [CloseLogger, WriteProcessesJson], r))))"

definition Manager_Get :: "Manager \<Rightarrow> string \<Rightarrow> ProcessInfo option" where
  "Manager_Get m idOrName =
     (case findProcess m idOrName of None \<Rightarrow> None | Some (id', proc) \<Rightarrow> Some (info proc))"

definition Manager_Stats :: "Manager \<Rightarrow> string \<Rightarrow> gauges option \<Rightarrow> int \<Rightarrow> ProcessStats option" where
  "Manager_Stats m idOrName probe now =
     (case findProcess m idOrName of None \<Rightarrow> None | Some (id', proc) \<Rightarrow> Stats proc probe now)"

definition Manager_GetStatsHistory :: "Manager \<Rightarrow> string \<Rightarrow> int \<Rightarrow> ProcessStats list option" where
  "Manager_GetStatsHistory m idOrName limit =
     (case findProcess m idOrName of
        None \<Rightarrow> None
      | Some (id', proc) \<Rightarrow> Some (GetStatsHistory proc limit))"

definition Manager_GetLogs ::
  "Manager \<Rightarrow> filesystem \<Rightarrow> string \<Rightarrow> int \<Rightarrow> string \<Rightarrow> error + string list" where
  "Manager_GetLogs m fs idOrName lines logType =
     (case findProcess m idOrName of
        None \<Rightarrow> Inl (NotFound idOrName)
      | Some (id', proc) \<Rightarrow> GetLogs proc fs lines logType)"

text \<open>\<open>CollectAllStats\<close>: the loop over the map; \<open>probe\<close> is the resource probe, by pid.\<close>

fun collect_range ::
  "(string \<times> Process) list \<Rightarrow> (int \<Rightarrow> gauges option) \<Rightarrow> int \<Rightarrow> (string \<times> Process) list option" where
  "collect_range [] probe now = Some []"
| "collect_range ((id', p) # rest) probe now =
     (if Status (info p) = StatusRunning
      then (case CollectStats p (probe (PID (info p))) now of
              None \<Rightarrow> None
            | Some p' \<Rightarrow>
                (case collect_range rest probe now of
                   None \<Rightarrow> None
                 | Some rest' \<Rightarrow> Some ((id', p') # rest')))
      else (case collect_range rest probe now of
              None \<Rightarrow> None
            | Some rest' \<Rightarrow> Some ((id', p) # rest')))"

definition CollectAllStats :: "Manager \<Rightarrow> (int \<Rightarrow> gauges option) \<Rightarrow> int \<Rightarrow> Manager option" where
  "CollectAllStats m probe now =
     (case collect_range (processes m) probe now of
        None \<Rightarrow> None
      | Some ps \<Rightarrow> Some (m\<lparr>processes := ps\<rparr>))"

text \<open>
  \<open>loadProcesses\<close>: the loop over the definitions read from processes.json. The \<open>i\<close>-th
  definition is built with what \<open>gen i\<close> gives to \<open>New\<close>; one whose logger cannot be
  made is skipped with a warning.
\<close>

fun load_range ::
  "Manager \<Rightarrow> Config list \<Rightarrow> nat \<Rightarrow> (nat \<Rightarrow> new_env) \<Rightarrow> Manager \<times> effect list" where
  "load_range m [] i gen = (m, [])"
| "load_range m (cfg # rest) i gen =
     (case FromConfig cfg (mlogDir m) (gen i) of
        Inl err \<Rightarrow>
          (case load_range m rest (Suc i) gen of
             (m', warned) \<Rightarrow> (m', Warn ''failed to load process'' # warned))
      | Inr proc \<Rightarrow>
          (case load_range (m\<lparr>processes := AList.update (ID (info proc)) proc (processes m)\<rparr>)
                  rest (Suc i) gen of
             (m', warned) \<Rightarrow> (m', OpenLogFiles (logDir (logger proc)) # warned)))"

definition loadProcesses ::
  "Manager \<Rightarrow> json_file \<Rightarrow> (nat \<Rightarrow> new_env) \<Rightarrow> Manager \<times> effect list \<times> (error + unit)" where
  "loadProcesses m disk gen =
     (case disk of
        Missing \<Rightarrow> (m, [], Inr ())
      | ReadError \<Rightarrow> (m, [], Inl ReadFailed)
      | Malformed \<Rightarrow> (m, [], Inl UnmarshalFailed)
      | Array configs \<Rightarrow>
          (case load_range m configs 0 gen of (m', warned) \<Rightarrow> (m', warned, Inr ())))"

definition NewManager ::
  "string \<Rightarrow> string \<Rightarrow> json_file \<Rightarrow> (nat \<Rightarrow> new_env) \<Rightarrow> error + Manager" where
  "NewManager data_dir log_dir disk gen =
     (let m = \<lparr>processes = [], dataDir = data_dir, mlogDir = log_dir\<rparr>
      in case loadProcesses m disk gen of
           (m', warned, Inl err) \<Rightarrow> Inl err
         | (m', warned, Inr u) \<Rightarrow> Inr m')"

text \<open>No two entries of the map have the same name.\<close>

definition names_unique :: "Manager \<Rightarrow> bool" where
  "names_unique m = distinct (map (\<lambda>(id', p). Name (info p)) (processes m))"

subsection \<open>internal/stats\<close>

record Collector =
  systemStats :: "SystemStats list"
  cmaxHistory :: int
  running :: bool

definition NewCollector :: Collector where
  "NewCollector = \<lparr>systemStats = [], cmaxHistory = 1000, running = False\<rparr>"

text \<open>
  \<open>collect\<close>: \<open>sysStats\<close> is the host sample that \<open>collectSystemStats\<close> read. The slice
  expression panics for a negative \<open>maxHistory\<close>, as in \<open>CollectStats\<close>.
\<close>

definition collect ::
  "Collector \<Rightarrow> Manager \<Rightarrow> SystemStats \<Rightarrow> (int \<Rightarrow> gauges option) \<Rightarrow> int
   \<Rightarrow> (Collector \<times> Manager) option" where
  "collect c m sysStats probe now =
     (let h = systemStats c @ [sysStats] in
      case (if int (length h) > cmaxHistory c
            then (if cmaxHistory c < 0 then None
                  else Some (c\<lparr>systemStats := drop (nat (int (length h) - cmaxHistory c)) h\<rparr>))
            else Some (c\<lparr>systemStats := h\<rparr>)) of
        None \<Rightarrow> None
      | Some c' \<Rightarrow>
          (case CollectAllStats m probe now of
             None \<Rightarrow> None
           | Some m' \<Rightarrow> Some (c', m')))"

subsection \<open>The API handler of the logs route\<close>

text \<open>
  \<open>getProcessLogs\<close>: \<open>query_type\<close> and \<open>query_lines\<close> are the values of the query
  parameters \<open>type\<close> and \<open>lines\<close> (empty when absent); \<open>sscanf\<close> is
  \<open>fmt.Sscanf(l, "%d", &lines)\<close>, which leaves \<open>lines\<close> alone when it reads no number.
  The answer is the status code with the error or the lines.
\<close>

definition getProcessLogs ::
  "Manager \<Rightarrow> filesystem \<Rightarrow> (string \<Rightarrow> int option) \<Rightarrow> string \<Rightarrow> string \<Rightarrow> string
   \<Rightarrow> nat \<times> (error + string list)" where
  "getProcessLogs m fs sscanf id_param query_type query_lines =
     (let lines = (if query_lines \<noteq> []
                   then (case sscanf query_lines of None \<Rightarrow> 100 | Some v \<Rightarrow> v)
                   else 100)
      in case Manager_GetLogs m fs id_param lines query_type of
           Inl err \<Rightarrow> (500, Inl err)
         | Inr logs \<Rightarrow> (200, Inr logs))"

text \<open>
  The samples a run appends to the ring of one process, in the order of the ticks: a tick
  appends what \<open>Stats\<close> returns, and nothing when \<open>Stats\<close> returns nil.
\<close>

fun appended :: "Process \<Rightarrow> event \<Rightarrow> ProcessStats list" where
  "appended p (Tick probe now) = (case Stats p probe now of None \<Rightarrow> [] | Some stats \<Rightarrow> [stats])"
| "appended p ev = []"

fun samples :: "Process \<Rightarrow> event list \<Rightarrow> ProcessStats list" where
  "samples p [] = []"
| "samples p (ev # evs) =
     appended p ev @ (case step p ev of None \<Rightarrow> [] | Some p' \<Rightarrow> samples p' evs)"

text \<open>
  The collector over time: each tick is a call of \<open>collect\<close> with the Manager as it is
  at that moment (other goroutines change it between ticks), the host sample, the probe
  and the clock.
\<close>

fun collect_run ::
  "Collector \<Rightarrow> (Manager \<times> SystemStats \<times> (int \<Rightarrow> gauges option) \<times> int) list \<Rightarrow> Collector option" where
  "collect_run c [] = Some c"
| "collect_run c ((m, sysStats, probe, now) # ticks) =
     (case collect c m sysStats probe now of
        None \<Rightarrow> None
      | Some (c', m') \<Rightarrow> collect_run c' ticks)"

text \<open>
  The Registry over time. Each event is one operation on the map: a create, a delete, a
  stop or a restart by reference, an event of the process stored under a key, and a restart
  of the supervisor, which builds the Manager again from processes.json as the last save
  left it. \<open>registry_run\<close> is \<open>None\<close> when a step panics or the boot fails.
\<close>

datatype registry_event =
    Create StartRequest create_env
  | Delete string bool
  | StopRef string
  | RestartRef string restart_env
  | ProcessEvent string event
  | Reboot "nat \<Rightarrow> new_env"

fun registry_step :: "Manager \<times> json_file \<Rightarrow> registry_event \<Rightarrow> (Manager \<times> json_file) option" where
  "registry_step (m, disk) (Create req e) =
     (case Manager_Start m disk req e of (m', disk', effs, r) \<Rightarrow> Some (m', disk'))"
| "registry_step (m, disk) (Delete idOrName write_ok) =
     (case Manager_Delete m disk idOrName write_ok of (m', disk', effs, r) \<Rightarrow> Some (m', disk'))"
| "registry_step (m, disk) (StopRef idOrName) =
     (case Manager_Stop m idOrName of (m', effs, r) \<Rightarrow> Some (m', disk))"
| "registry_step (m, disk) (RestartRef idOrName e) =
     (case Manager_Restart m idOrName e of (m', effs, r) \<Rightarrow> Some (m', disk))"
| "registry_step (m, disk) (ProcessEvent k ev) =
     (case map_of (processes m) k of
        None \<Rightarrow> Some (m, disk)
      | Some p \<Rightarrow>
          (case step p ev of
             None \<Rightarrow> None
           | Some p' \<Rightarrow> Some (m\<lparr>processes := AList.update k p' (processes m)\<rparr>, disk)))"
| "registry_step (m, disk) (Reboot gen) =
     (case NewManager (dataDir m) (mlogDir m) disk gen of
        Inl err \<Rightarrow> None
      | Inr m' \<Rightarrow> Some (m', disk))"

fun registry_run :: "Manager \<times> json_file \<Rightarrow> registry_event list \<Rightarrow> (Manager \<times> json_file) option" where
  "registry_run s [] = Some s"
| "registry_run s (ev # evs) =
     (case registry_step s ev of None \<Rightarrow> None | Some s' \<Rightarrow> registry_run s' evs)"

text \<open>The definitions in processes.json, if the file is there, have distinct names.\<close>

definition saved_names_unique :: "json_file \<Rightarrow> bool" where
  "saved_names_unique disk =
     (case disk of
        Missing \<Rightarrow> True
      | ReadError \<Rightarrow> False
      | Malformed \<Rightarrow> False
      | Array configs \<Rightarrow> distinct (map cName configs))"

text \<open>
  What every reachable state of the Registry satisfies: distinct keys, distinct names, no
  negative maxHistory, and a file whose definitions have distinct names.
\<close>

definition registry_inv :: "Manager \<times> json_file \<Rightarrow> bool" where
  "registry_inv s =
     (distinct (map fst (processes (fst s))) \<and> names_unique (fst s) \<and>
      list_all (\<lambda>kp. 0 \<le> maxHistory (snd kp)) (processes (fst s)) \<and>
      saved_names_unique (snd s))"

text \<open>The identifiers and names of the entries of the map, in the order of the list.\<close>

definition entry_names :: "Manager \<Rightarrow> (string \<times> string) list" where
  "entry_names m = map (\<lambda>(id', p). (id', Name (info p))) (processes m)"

text \<open>The same map, with the \<open>range\<close> visiting its entries in the opposite order.\<close>

definition other_order :: "Manager \<Rightarrow> Manager" where
  "other_order m = m\<lparr>processes := rev (processes m)\<rparr>"

subsection \<open>Concrete inputs\<close>

definition example_request :: StartRequest where
  "example_request =
     \<lparr>rName = ''web'', rCommand = ''/bin/sleep'', rArgs = [''60''], rWorkDir = [], rEnv = [],
      rAutoStart = False, rAutoRestart = True, rMaxRestarts = 3, rUser = [], rGroup = []\<rparr>"

definition example_request_zero :: StartRequest where
  "example_request_zero = example_request\<lparr>rMaxRestarts := 0\<rparr>"

definition shadow_request :: StartRequest where
  "shadow_request = example_request\<lparr>rName := ''1a2b3c4d''\<rparr>"

definition example_new_env :: new_env where
  "example_new_env = \<lparr>uuid8 = ''1a2b3c4d'', new_now = 100, files_ok = True\<rparr>"

definition launch_ok :: "int \<Rightarrow> start_env" where
  "launch_ok pid = \<lparr>cred_ok = True, stdout_pipe_ok = True, stderr_pipe_ok = True,
                     exec_pid = Some pid, start_now = 101\<rparr>"

definition launch_fails :: start_env where
  "launch_fails = \<lparr>cred_ok = True, stdout_pipe_ok = True, stderr_pipe_ok = True,
                    exec_pid = None, start_now = 101\<rparr>"

definition example_process :: Process where
  "example_process =
     \<lparr>info = \<lparr>ID = ''1a2b3c4d'', Name = ''web'', Status = StatusStopped, PID = 0,
               Command = ''/bin/sleep'', Args = [''60''], WorkDir = [], Env = [],
               AutoStart = False, AutoRestart = True, MaxRestarts = 3, RestartCount = 0,
               User = [], Group = [], CreatedAt = 100, StartedAt = None, StoppedAt = None\<rparr>,
      cmd = None, has_cancel = False,
      logger = \<lparr>lid = ''1a2b3c4d'', lname = ''web'', logDir = ''/var/log/gemstone/web-1a2b3c4d''\<rparr>,
      statsHistory = [], maxHistory = 1000\<rparr>"

definition example_running :: Process where
  "example_running = fst (Start example_process (launch_ok 4242))"

definition example_stopping :: Process where
  "example_stopping = fst (Stop example_running)"

definition example_restarting :: Process where
  "example_restarting = fst (waitForExit_locked example_running True 160)"

definition example_restart_env :: "start_env \<Rightarrow> restart_env" where
  "example_restart_env e = \<lparr>reap_during = None, reap_err = False, reap_now = 170, restart_start = e\<rparr>"

definition example_create_env :: "string \<Rightarrow> start_env \<Rightarrow> create_env" where
  "example_create_env u e =
     \<lparr>ce_new = \<lparr>uuid8 = u, new_now = 100, files_ok = True\<rparr>, ce_start = e, ce_write_ok = True\<rparr>"

definition empty_Manager :: Manager where
  "empty_Manager = \<lparr>processes = [], dataDir = ''/var/lib/gemstone'', mlogDir = ''/var/log/gemstone''\<rparr>"

definition example_Manager :: Manager where
  "example_Manager = empty_Manager\<lparr>processes := [(''1a2b3c4d'', example_process)]\<rparr>"

definition restored_Manager :: Manager where
  "restored_Manager =
     empty_Manager\<lparr>processes :=
       [(''1a2b3c4d'',
         example_process\<lparr>info := (info example_process)\<lparr>CreatedAt := 50\<rparr>,
                         logger := \<lparr>lid = ''c0c0c0c0'', lname = ''web'',
                                    logDir = ''/var/log/gemstone/web-c0c0c0c0''\<rparr>\<rparr>)]\<rparr>"

definition created_one :: "Manager \<times> json_file \<times> effect list \<times> (error + ProcessInfo)" where
  "created_one =
     Manager_Start empty_Manager Missing example_request
       (example_create_env ''1a2b3c4d'' (launch_ok 4242))"

definition created_two :: "Manager \<times> json_file \<times> effect list \<times> (error + ProcessInfo)" where
  "created_two =
     Manager_Start (fst created_one) (fst (snd created_one)) shadow_request
       (example_create_env ''9f8e7d6c'' (launch_ok 4250))"

definition example_config :: "string \<Rightarrow> string \<Rightarrow> Config" where
  "example_config i n =
     \<lparr>cID = i, cName = n, cCommand = ''/bin/sleep'', cArgs = [''60''], cWorkDir = [], cEnv = [],
      cAutoStart = False, cAutoRestart = True, cMaxRestarts = 3, cUser = [], cGroup = []\<rparr>"

definition example_gen :: "nat \<Rightarrow> new_env" where
  "example_gen i = \<lparr>uuid8 = (if i = 0 then ''c0c0c0c0'' else ''d1d1d1d1''), new_now = 50, files_ok = True\<rparr>"

definition example_fs :: filesystem where
  "example_fs path =
     (if path = ''/var/log/gemstone/web-1a2b3c4d/combined.log''
      then Opened [''[OUT] one'', ''[ERR] two'', ''[OUT] three''] False
      else if path = ''/var/log/gemstone/web-1a2b3c4d/stdout.log''
      then Opened [''one'', ''three''] False
      else NotExist)"

definition example_sscanf :: "string \<Rightarrow> int option" where
  "example_sscanf s = (if s = ''2'' then Some 2 else None)"

definition example_host :: "int \<Rightarrow> SystemStats" where
  "example_host t = \<lparr>hMemoryTotal = 8192, hMemoryUsed = 4096, hDiskTotal = 100, hDiskUsed = 40,
                     hUptime = 3600, hTimestamp = t\<rparr>"

definition no_probe :: "int \<Rightarrow> gauges option" where
  "no_probe pid = None"

section \<open>Properties\<close>

subsection \<open>The concrete inputs are states of the program\<close>

lemma New_fields:
  "New req dir ne = Inr p \<Longrightarrow>
   maxHistory p = 1000 \<and> statsHistory p = [] \<and> RestartCount (info p) = 0 \<and>
   MaxRestarts (info p) = rMaxRestarts req \<and> Name (info p) = rName req"
  by (auto simp: New_def Let_def split: sum.splits)

lemma FromConfig_fields:
  "FromConfig cfg dir ne = Inr p \<Longrightarrow>
   maxHistory p = 1000 \<and> statsHistory p = [] \<and> RestartCount (info p) = 0 \<and>
   MaxRestarts (info p) = cMaxRestarts cfg \<and> Name (info p) = cName cfg"
  by (auto simp: FromConfig_def New_def Let_def split: sum.splits if_splits)

lemma New_example: "New example_request ''/var/log/gemstone'' example_new_env = Inr example_process"
  by (simp add: New_def example_request_def example_new_env_def example_process_def
      NewProcessLogger_def filepath_Join_def Let_def)

lemma New_example_zero:
  "New example_request_zero ''/var/log/gemstone'' example_new_env =
     Inr (example_process\<lparr>info := (info example_process)\<lparr>MaxRestarts := 0\<rparr>\<rparr>)"
  by (simp add: New_def example_request_zero_def example_request_def example_new_env_def
      example_process_def NewProcessLogger_def filepath_Join_def Let_def)

lemma example_running_eq:
  "example_running = example_process\<lparr>cmd := Some 4242, has_cancel := True,
      info := (info example_process)\<lparr>PID := 4242, Status := StatusRunning, StartedAt := Some 101\<rparr>\<rparr>"
  by (simp add: example_running_def Start_def example_process_def launch_ok_def set_Status_def)

lemma example_stopping_eq:
  "example_stopping = example_process\<lparr>cmd := Some 4242, has_cancel := True,
      info := (info example_process)\<lparr>PID := 4242, Status := StatusStopping, StartedAt := Some 101\<rparr>\<rparr>"
  by (simp add: example_stopping_def example_running_eq Stop_def example_process_def set_Status_def)

lemma example_restarting_eq:
  "example_restarting = example_process\<lparr>cmd := Some 4242, has_cancel := True,
      info := (info example_process)\<lparr>PID := 0, Status := StatusRestarting, StartedAt := Some 101,
               StoppedAt := Some 160, RestartCount := 1\<rparr>\<rparr>"
  by (simp add: example_restarting_def example_running_eq waitForExit_locked_def example_process_def set_Status_def)

lemma created_two_entries:
  "entry_names (fst created_two) = [(''1a2b3c4d'', ''web''), (''9f8e7d6c'', ''1a2b3c4d'')] \<and>
   snd (snd (snd created_one)) = Inr (info example_running) \<and>
   fst (snd created_two) =
     Array [example_config ''1a2b3c4d'' ''web'', example_config ''9f8e7d6c'' ''1a2b3c4d'']"
  by (simp add: entry_names_def created_two_def created_one_def Manager_Start_def New_def Start_def
      NewProcessLogger_def saveProcesses_def empty_Manager_def example_request_def shadow_request_def
      example_create_env_def launch_ok_def set_Status_def Let_def ToConfig_def example_config_def
      example_running_def example_process_def filepath_Join_def)

subsection \<open>Start, Stop and Restart of one process\<close>

lemma Start_cases:
  "Start p e = (p, [], Inl (AlreadyRunning (Name (info p)))) \<or>
   (\<exists>err. \<not> is_InvalidState err \<and> Start p e = (set_Status StatusErrored ((set_Status StatusStarting p)\<lparr>has_cancel := True\<rparr>), [], Inl err)) \<or>
   (\<exists>pid. Start p e = ((set_Status StatusStarting p)\<lparr>has_cancel := True, cmd := Some pid,
                     info := (info p)\<lparr>PID := pid, Status := StatusRunning,
                                       StartedAt := Some (start_now e), StoppedAt := None\<rparr>\<rparr>,
                  [Spawn (Command (info p)) (Args (info p)) pid,
                   GoCaptureOutput ''stdout'', GoCaptureOutput ''stderr'', GoWaitForExit],
                  Inr ()))"
  unfolding Start_def Let_def
  by (cases "exec_pid e") (simp_all add: set_Status_def)

lemma Start_launch:
  assumes "Status (info p) \<noteq> StatusRunning" "User (info p) = [] \<or> cred_ok e"
    "stdout_pipe_ok e" "stderr_pipe_ok e" "exec_pid e = Some pid"
  shows "Start p e =
     (p\<lparr>has_cancel := True, cmd := Some pid,
        info := (info p)\<lparr>PID := pid, Status := StatusRunning,
                         StartedAt := Some (start_now e), StoppedAt := None\<rparr>\<rparr>,
      [Spawn (Command (info p)) (Args (info p)) pid,
       GoCaptureOutput ''stdout'', GoCaptureOutput ''stderr'', GoWaitForExit],
      Inr ())"
  using assms by (auto simp: Start_def Let_def set_Status_def)

lemma Start_no_launch:
  assumes "Status (info p) \<noteq> StatusRunning"
    "\<not> ((User (info p) = [] \<or> cred_ok e) \<and> stdout_pipe_ok e \<and> stderr_pipe_ok e \<and> exec_pid e \<noteq> None)"
  shows "\<exists>err. \<not> is_InvalidState err \<and>
           Start p e = (p\<lparr>has_cancel := True, info := (info p)\<lparr>Status := StatusErrored\<rparr>\<rparr>, [], Inl err)"
  using assms by (cases "exec_pid e") (auto simp: Start_def Let_def set_Status_def)

lemma Start_Running:
  "Status (info p) = StatusRunning \<Longrightarrow> Start p e = (p, [], Inl (AlreadyRunning (Name (info p))))"
  by (simp add: Start_def)

lemma Stop_Stopped:
  assumes "Status (info p) = StatusStopped"
  shows "Stop p = (p, [], Inl (NotRunning (Name (info p)))) \<and> is_InvalidState (NotRunning (Name (info p)))"
  using assms by (simp add: Stop_def)

text \<open>
  Claim C1, as amended. A Restart issued while the status is Restarting sends no Stop and
  does not wait: it is exactly a call of Start. When the credentials, the pipes and the
  exec succeed it returns without error, having launched a new child, and the status is
  Running; otherwise it returns the error of Start and the status is Errored.
\<close>

theorem Restart_while_Restarting_is_Start:
  assumes "Status (info p) = StatusRestarting"
  shows "Restart p e = Start p (restart_start e) \<and>
    ((User (info p) = [] \<or> cred_ok (restart_start e)) \<and> stdout_pipe_ok (restart_start e) \<and>
     stderr_pipe_ok (restart_start e) \<and> exec_pid (restart_start e) = Some pid \<longrightarrow>
       Restart p e =
         (p\<lparr>has_cancel := True, cmd := Some pid,
            info := (info p)\<lparr>PID := pid, Status := StatusRunning,
                             StartedAt := Some (start_now (restart_start e)), StoppedAt := None\<rparr>\<rparr>,
          [Spawn (Command (info p)) (Args (info p)) pid,
           GoCaptureOutput ''stdout'', GoCaptureOutput ''stderr'', GoWaitForExit],
          Inr ())) \<and>
    (\<not> ((User (info p) = [] \<or> cred_ok (restart_start e)) \<and> stdout_pipe_ok (restart_start e) \<and>
        stderr_pipe_ok (restart_start e) \<and> exec_pid (restart_start e) \<noteq> None) \<longrightarrow>
       (\<exists>err. Restart p e =
          (p\<lparr>has_cancel := True, info := (info p)\<lparr>Status := StatusErrored\<rparr>\<rparr>, [], Inl err)))"
proof -
  from assms have nr: "Status (info p) \<noteq> StatusRunning" by simp
  then have eq: "Restart p e = Start p (restart_start e)" by (simp add: Restart_def)
  show ?thesis
    unfolding eq
    using Start_launch[OF nr, of "restart_start e" pid] Start_no_launch[OF nr, of "restart_start e"]
    by auto
qed

text \<open>C1, the amended statement at a process whose child has just exited with auto-restart.\<close>

theorem Restart_while_Restarting_is_Start_witness:
  "Status (info example_restarting) = StatusRestarting \<and>
   Restart example_restarting (example_restart_env (launch_ok 4243)) =
     Start example_restarting (launch_ok 4243) \<and>
   Restart example_restarting (example_restart_env (launch_ok 4243)) =
     (example_restarting\<lparr>has_cancel := True, cmd := Some 4243,
        info := (info example_restarting)\<lparr>PID := 4243, Status := StatusRunning,
                         StartedAt := Some 101, StoppedAt := None\<rparr>\<rparr>,
      [Spawn ''/bin/sleep'' [''60''] 4243,
       GoCaptureOutput ''stdout'', GoCaptureOutput ''stderr'', GoWaitForExit],
      Inr ()) \<and>
   (\<exists>err. Restart example_restarting (example_restart_env launch_fails) =
      (example_restarting\<lparr>has_cancel := True,
         info := (info example_restarting)\<lparr>Status := StatusErrored\<rparr>\<rparr>, [], Inl err))"
proof -
  have s: "Status (info example_restarting) = StatusRestarting"
    by (simp add: example_restarting_eq)
  show ?thesis
    using s Restart_while_Restarting_is_Start[OF s, of "example_restart_env (launch_ok 4243)" 4243]
      Restart_while_Restarting_is_Start[OF s, of "example_restart_env launch_fails" 0]
    by (simp add: example_restart_env_def launch_ok_def launch_fails_def
        example_restarting_eq example_process_def Start_def set_Status_def)
qed

text \<open>
  C1 as first stated fails: the process reached by New, Start and the reaper's decision to
  restart has status Restarting, and a Restart of it spawns the child 4243 through Start;
  when the exec fails, the same Restart returns an error.
\<close>

theorem Restart_while_Restarting_launches:
  "Status (info example_restarting) = StatusRestarting \<and>
   snd (Restart example_restarting (example_restart_env (launch_ok 4243))) =
     ([Spawn ''/bin/sleep'' [''60''] 4243, GoCaptureOutput ''stdout'', GoCaptureOutput ''stderr'',
       GoWaitForExit], Inr ()) \<and>
   Status (info (fst (Restart example_restarting (example_restart_env (launch_ok 4243))))) = StatusRunning \<and>
   PID (info (fst (Restart example_restarting (example_restart_env (launch_ok 4243))))) = 4243 \<and>
   snd (snd (Restart example_restarting (example_restart_env launch_fails))) = Inl StartFailed"
  by (simp add: example_restarting_eq Restart_def Start_def example_process_def launch_ok_def
      launch_fails_def example_restart_env_def set_Status_def)

text \<open>
  Claim C2, as amended. Start answers InvalidState, changing nothing and starting no child,
  exactly when the status is Running. In every other status it goes on: when the
  credentials, the pipes and the exec succeed it launches the child and the status is
  Running; otherwise the status is Errored and the error is not InvalidState.
\<close>

theorem Start_InvalidState_only_when_Running:
  "(Status (info p) = StatusRunning \<longrightarrow>
      Start p e = (p, [], Inl (AlreadyRunning (Name (info p)))) \<and>
      is_InvalidState (AlreadyRunning (Name (info p)))) \<and>
   (Status (info p) \<noteq> StatusRunning \<longrightarrow>
      ((User (info p) = [] \<or> cred_ok e) \<and> stdout_pipe_ok e \<and> stderr_pipe_ok e \<and>
       exec_pid e = Some pid \<longrightarrow>
         Start p e =
           (p\<lparr>has_cancel := True, cmd := Some pid,
              info := (info p)\<lparr>PID := pid, Status := StatusRunning,
                               StartedAt := Some (start_now e), StoppedAt := None\<rparr>\<rparr>,
            [Spawn (Command (info p)) (Args (info p)) pid,
             GoCaptureOutput ''stdout'', GoCaptureOutput ''stderr'', GoWaitForExit],
            Inr ())) \<and>
      (\<not> ((User (info p) = [] \<or> cred_ok e) \<and> stdout_pipe_ok e \<and> stderr_pipe_ok e \<and>
          exec_pid e \<noteq> None) \<longrightarrow>
         (\<exists>err. \<not> is_InvalidState err \<and>
            Start p e =
              (p\<lparr>has_cancel := True, info := (info p)\<lparr>Status := StatusErrored\<rparr>\<rparr>, [], Inl err))))"
  using Start_Running[of p e] Start_launch[of p e pid] Start_no_launch[of p e]
  by (cases "Status (info p) = StatusRunning") simp_all

text \<open>C2, the amended statement at a running, a stopping and a stopped process.\<close>

theorem Start_InvalidState_only_when_Running_witness:
  "Status (info example_running) = StatusRunning \<and>
   Start example_running (launch_ok 4243) = (example_running, [], Inl (AlreadyRunning ''web'')) \<and>
   Status (info example_stopping) \<noteq> StatusRunning \<and>
   Start example_stopping (launch_ok 4243) =
     (example_stopping\<lparr>has_cancel := True, cmd := Some 4243,
        info := (info example_stopping)\<lparr>PID := 4243, Status := StatusRunning,
                         StartedAt := Some 101, StoppedAt := None\<rparr>\<rparr>,
      [Spawn ''/bin/sleep'' [''60''] 4243,
       GoCaptureOutput ''stdout'', GoCaptureOutput ''stderr'', GoWaitForExit],
      Inr ()) \<and>
   (\<exists>err. \<not> is_InvalidState err \<and>
      Start example_process launch_fails =
        (example_process\<lparr>has_cancel := True,
           info := (info example_process)\<lparr>Status := StatusErrored\<rparr>\<rparr>, [], Inl err))"
  using Start_InvalidState_only_when_Running[of example_running "launch_ok 4243" 4243]
    Start_InvalidState_only_when_Running[of example_stopping "launch_ok 4243" 4243]
    Start_InvalidState_only_when_Running[of example_process launch_fails 0]
  by (simp add: launch_ok_def launch_fails_def example_running_eq example_stopping_eq
      example_process_def)

text \<open>
  C2 as first stated fails: a Start of a process whose status is Stopping, its first child
  not yet reaped, succeeds and spawns a second child.
\<close>

theorem Start_while_Stopping_launches:
  "Status (info example_stopping) = StatusStopping \<and>
   snd (Start example_stopping (launch_ok 4243)) =
     ([Spawn ''/bin/sleep'' [''60''] 4243, GoCaptureOutput ''stdout'', GoCaptureOutput ''stderr'',
       GoWaitForExit], Inr ()) \<and>
   Status (info (fst (Start example_stopping (launch_ok 4243)))) = StatusRunning \<and>
   PID (info (fst (Start example_stopping (launch_ok 4243)))) = 4243"
  by (simp add: example_stopping_eq Start_def example_process_def launch_ok_def set_Status_def)

subsection \<open>Stop of a stopped process\<close>

lemma update_same: "map_of ps k = Some v \<Longrightarrow> AList.update k v ps = ps"
  by (induction ps) (auto split: if_splits)

lemma find_map_of:
  assumes "distinct (map fst ps)" "find P ps = Some (k, v)"
  shows "map_of ps k = Some v"
proof -
  from assms(2) have "(k, v) \<in> set ps" by (auto simp: find_Some_iff)
  with assms(1) show ?thesis by simp
qed

lemma findProcess_map_of:
  assumes "distinct (map fst (processes m))" "findProcess m r = Some (k, p)"
  shows "map_of (processes m) k = Some p"
proof (cases "map_of (processes m) r")
  case None
  with assms(2) have "find (\<lambda>(id', p). Name (info p) = r) (processes m) = Some (k, p)"
    by (simp add: findProcess_def)
  with assms(1) show ?thesis by (rule find_map_of)
next
  case (Some q)
  with assms(2) show ?thesis by (simp add: findProcess_def)
qed

lemma Manager_Stop_Stopped:
  assumes "distinct (map fst (processes m))" "findProcess m r = Some (k, p)" "Status (info p) = StatusStopped"
  shows "Manager_Stop m r = (m, [], Inl (NotRunning (Name (info p))))"
  using assms by (simp add: Manager_Stop_def Stop_def update_same[OF findProcess_map_of])

text \<open>
  Claim C9. Stop of a process whose status is Stopped returns the InvalidState error
  "process is not running" and the process is as before: no status change, no signal, no
  timestamp written. The same holds through the Manager, whose map is as before.
\<close>

theorem Stop_of_Stopped_is_InvalidState:
  "(Status (info p) = StatusStopped \<longrightarrow>
      Stop p = (p, [], Inl (NotRunning (Name (info p)))) \<and>
      is_InvalidState (NotRunning (Name (info p)))) \<and>
   (distinct (map fst (processes m)) \<and> findProcess m r = Some (k, p) \<and>
    Status (info p) = StatusStopped \<longrightarrow>
      Manager_Stop m r = (m, [], Inl (NotRunning (Name (info p)))))"
  using Stop_Stopped[of p] Manager_Stop_Stopped[of m r k p] by simp

text \<open>C9 at the process that New gives, alone in the map.\<close>

theorem Stop_of_Stopped_is_InvalidState_witness:
  "Status (info example_process) = StatusStopped \<and>
   Stop example_process = (example_process, [], Inl (NotRunning ''web'')) \<and>
   is_InvalidState (NotRunning ''web'') \<and>
   distinct (map fst (processes example_Manager)) \<and>
   findProcess example_Manager ''web'' = Some (''1a2b3c4d'', example_process) \<and>
   Manager_Stop example_Manager ''web'' = (example_Manager, [], Inl (NotRunning ''web''))"
proof -
  have a: "Status (info example_process) = StatusStopped" by (simp add: example_process_def)
  have b: "distinct (map fst (processes example_Manager))"
    by (simp add: example_Manager_def empty_Manager_def)
  have c: "findProcess example_Manager ''web'' = Some (''1a2b3c4d'', example_process)"
    by (simp add: findProcess_def example_Manager_def empty_Manager_def example_process_def)
  have n: "Name (info example_process) = ''web''" by (simp add: example_process_def)
  from a b c n Stop_of_Stopped_is_InvalidState[of example_process example_Manager "''web''" "''1a2b3c4d''"]
  show ?thesis by simp
qed

subsection \<open>The reaper\<close>

lemma waitForExit_locked_frame:
  "statsHistory (fst (waitForExit_locked p x t)) = statsHistory p \<and>
   maxHistory (fst (waitForExit_locked p x t)) = maxHistory p \<and>
   MaxRestarts (info (fst (waitForExit_locked p x t))) = MaxRestarts (info p) \<and>
   RestartCount (info p) \<le> RestartCount (info (fst (waitForExit_locked p x t)))"
  by (simp add: waitForExit_locked_def set_Status_def Let_def)

lemma Start_frame:
  "statsHistory (fst (Start p e)) = statsHistory p \<and> maxHistory (fst (Start p e)) = maxHistory p \<and>
   MaxRestarts (info (fst (Start p e))) = MaxRestarts (info p) \<and>
   RestartCount (info (fst (Start p e))) = RestartCount (info p)"
  using Start_cases[of p e] by (auto simp: set_Status_def)

lemma Stop_frame:
  "statsHistory (fst (Stop p)) = statsHistory p \<and> maxHistory (fst (Stop p)) = maxHistory p \<and>
   MaxRestarts (info (fst (Stop p))) = MaxRestarts (info p) \<and>
   RestartCount (info (fst (Stop p))) = RestartCount (info p)"
  by (simp add: Stop_def set_Status_def)

lemma Stop_deadline_frame: "fst (Stop_deadline p) = p"
  by (simp add: Stop_deadline_def)

lemma poll_Stopped_frame:
  "statsHistory (fst (poll_Stopped k i e p)) = statsHistory p \<and>
   maxHistory (fst (poll_Stopped k i e p)) = maxHistory p \<and>
   MaxRestarts (info (fst (poll_Stopped k i e p))) = MaxRestarts (info p) \<and>
   RestartCount (info p) \<le> RestartCount (info (fst (poll_Stopped k i e p)))"
proof (induction k arbitrary: i p)
  case 0
  show ?case by simp
next
  case (Suc k)
  define q where "q = (if reap_during e = Some i
                       then fst (waitForExit_locked p (reap_err e) (reap_now e)) else p)"
  have q: "statsHistory q = statsHistory p \<and> maxHistory q = maxHistory p \<and>
           MaxRestarts (info q) = MaxRestarts (info p) \<and> RestartCount (info p) \<le> RestartCount (info q)"
    using waitForExit_locked_frame[of p "reap_err e" "reap_now e"] by (simp add: q_def)
  have unfold: "fst (poll_Stopped (Suc k) i e p) =
                (if Status (info q) = StatusStopped then q else fst (poll_Stopped k (Suc i) e q))"
    by (simp add: q_def Let_def case_prod_beta)
  show ?case
  proof (cases "Status (info q) = StatusStopped")
    case True
    with unfold q show ?thesis by simp
  next
    case False
    with unfold have "fst (poll_Stopped (Suc k) i e p) = fst (poll_Stopped k (Suc i) e q)" by simp
    with q Suc.IH[of "Suc i" q] show ?thesis by simp
  qed
qed

lemma Restart_frame:
  "statsHistory (fst (Restart p e)) = statsHistory p \<and> maxHistory (fst (Restart p e)) = maxHistory p \<and>
   MaxRestarts (info (fst (Restart p e))) = MaxRestarts (info p) \<and>
   RestartCount (info p) \<le> RestartCount (info (fst (Restart p e)))"
proof (cases "Status (info p) = StatusRunning")
  case False
  then have "Restart p e = Start p (restart_start e)" by (simp add: Restart_def)
  then show ?thesis using Start_frame[of p "restart_start e"] by simp
next
  case True
  let ?p1 = "fst (Stop p)"
  let ?p2 = "fst (poll_Stopped 10 0 e ?p1)"
  from True have "fst (Restart p e) = fst (Start ?p2 (restart_start e))"
    by (simp add: Restart_def Stop_def case_prod_beta)
  then show ?thesis
    using Start_frame[of ?p2 "restart_start e"] poll_Stopped_frame[of 10 0 e ?p1] Stop_frame[of p]
    by simp
qed

lemma CollectStats_frame:
  "CollectStats p g t = Some p' \<Longrightarrow>
   maxHistory p' = maxHistory p \<and> info p' = info p"
  by (auto simp: CollectStats_def Let_def split: option.splits if_splits)

lemma step_frame:
  "step p ev = Some p' \<Longrightarrow>
   maxHistory p' = maxHistory p \<and> MaxRestarts (info p') = MaxRestarts (info p) \<and>
   RestartCount (info p) \<le> RestartCount (info p')"
proof (cases ev)
  case (CallStart e) assume "step p ev = Some p'"
  with CallStart show ?thesis using Start_frame[of p e] by auto
next
  case CallStop assume "step p ev = Some p'"
  with CallStop show ?thesis using Stop_frame[of p] by auto
next
  case StopDeadline assume "step p ev = Some p'"
  with StopDeadline show ?thesis by (auto simp: Stop_deadline_frame)
next
  case (ChildExit x t) assume "step p ev = Some p'"
  with ChildExit show ?thesis using waitForExit_locked_frame[of p x t]
    by (cases "cmd p") auto
next
  case (CallRestart e) assume "step p ev = Some p'"
  with CallRestart show ?thesis using Restart_frame[of p e] by auto
next
  case (Tick g t) assume "step p ev = Some p'"
  with Tick show ?thesis using CollectStats_frame[of p g t p'] by auto
qed

lemma run_frame:
  "run p evs = Some p' \<Longrightarrow>
   MaxRestarts (info p') = MaxRestarts (info p) \<and> RestartCount (info p) \<le> RestartCount (info p')"
proof (induction evs arbitrary: p)
  case Nil
  then show ?case by simp
next
  case (Cons ev evs)
  from Cons.prems obtain q where q: "step p ev = Some q" and r: "run q evs = Some p'"
    by (cases "step p ev") auto
  from step_frame[OF q] Cons.IH[OF r] show ?case by simp
qed

text \<open>
  Claim C6. On a child's exit the reaper decides to restart if and only if AutoRestart is
  set, the status it finds is Running and RestartCount is below MaxRestarts; it then adds
  one to RestartCount, sets the status to Restarting and calls Start; otherwise it sets the
  status to Stopped. For a process made by New or restored by FromConfig with MaxRestarts 0,
  after any sequence of events the reaper never decides to restart.
\<close>

theorem reaper_restarts_iff:
  "(snd (snd (waitForExit_locked p x t)) \<longleftrightarrow>
      AutoRestart (info p) \<and> Status (info p) = StatusRunning \<and>
      RestartCount (info p) < MaxRestarts (info p)) \<and>
   (snd (snd (waitForExit_locked p x t)) \<longrightarrow>
      Status (info (fst (waitForExit_locked p x t))) = StatusRestarting \<and>
      RestartCount (info (fst (waitForExit_locked p x t))) = RestartCount (info p) + 1) \<and>
   (\<not> snd (snd (waitForExit_locked p x t)) \<longrightarrow>
      Status (info (fst (waitForExit_locked p x t))) = StatusStopped \<and>
      RestartCount (info (fst (waitForExit_locked p x t))) = RestartCount (info p)) \<and>
   (cmd p \<noteq> None \<longrightarrow>
      fst (waitForExit p x t e) =
        (if snd (snd (waitForExit_locked p x t))
         then fst (Start (fst (waitForExit_locked p x t)) e)
         else fst (waitForExit_locked p x t))) \<and>
   ((New req dir ne = Inr p0 \<and> rMaxRestarts req = 0 \<or>
     FromConfig cfg dir ne = Inr p0 \<and> cMaxRestarts cfg = 0) \<and>
    run p0 evs = Some q \<longrightarrow>
      \<not> snd (snd (waitForExit_locked q x t)))"
proof -
  have a: "snd (snd (waitForExit_locked p x t)) \<longleftrightarrow>
      AutoRestart (info p) \<and> Status (info p) = StatusRunning \<and>
      RestartCount (info p) < MaxRestarts (info p)" for p
    by (simp add: waitForExit_locked_def Let_def)
  have b: "snd (snd (waitForExit_locked p x t)) \<longrightarrow>
      Status (info (fst (waitForExit_locked p x t))) = StatusRestarting \<and>
      RestartCount (info (fst (waitForExit_locked p x t))) = RestartCount (info p) + 1"
    by (simp add: waitForExit_locked_def Let_def)
  have c: "\<not> snd (snd (waitForExit_locked p x t)) \<longrightarrow>
      Status (info (fst (waitForExit_locked p x t))) = StatusStopped \<and>
      RestartCount (info (fst (waitForExit_locked p x t))) = RestartCount (info p)"
    by (simp add: waitForExit_locked_def Let_def set_Status_def)
  have d: "cmd p \<noteq> None \<longrightarrow>
      fst (waitForExit p x t e) =
        (if snd (snd (waitForExit_locked p x t))
         then fst (Start (fst (waitForExit_locked p x t)) e)
         else fst (waitForExit_locked p x t))"
    by (cases "cmd p") (simp_all add: waitForExit_def case_prod_beta)
  have e: "\<not> snd (snd (waitForExit_locked q x t))"
    if n: "New req dir ne = Inr p0 \<and> rMaxRestarts req = 0 \<or>
           FromConfig cfg dir ne = Inr p0 \<and> cMaxRestarts cfg = 0"
      and r: "run p0 evs = Some q"
  proof -
    from n have "MaxRestarts (info p0) = 0 \<and> RestartCount (info p0) = 0"
      using New_fields[of req dir ne p0] FromConfig_fields[of cfg dir ne p0] by auto
    with run_frame[OF r] have "MaxRestarts (info q) = 0" "0 \<le> RestartCount (info q)" by simp_all
    then show ?thesis by (simp add: a)
  qed
  from a[of p] b c d e show ?thesis by blast
qed

text \<open>C6 at a running process (restart), a stopping one (no restart) and one with
  MaxRestarts 0 (no restart).\<close>

theorem reaper_restarts_iff_witness:
  "snd (snd (waitForExit_locked example_running True 160)) \<and>
   Status (info (fst (waitForExit_locked example_running True 160))) = StatusRestarting \<and>
   RestartCount (info (fst (waitForExit_locked example_running True 160))) = 1 \<and>
   \<not> snd (snd (waitForExit_locked example_stopping True 160)) \<and>
   Status (info (fst (waitForExit_locked example_stopping True 160))) = StatusStopped \<and>
   cmd example_running \<noteq> None \<and>
   fst (waitForExit example_running True 160 (launch_ok 4243)) =
     fst (Start (fst (waitForExit_locked example_running True 160)) (launch_ok 4243)) \<and>
   New example_request_zero ''/var/log/gemstone'' example_new_env =
     Inr (example_process\<lparr>info := (info example_process)\<lparr>MaxRestarts := 0\<rparr>\<rparr>) \<and>
   rMaxRestarts example_request_zero = 0 \<and>
   run (example_process\<lparr>info := (info example_process)\<lparr>MaxRestarts := 0\<rparr>\<rparr>)
       [CallStart (launch_ok 4242)] =
     Some (example_running\<lparr>info := (info example_running)\<lparr>MaxRestarts := 0\<rparr>\<rparr>) \<and>
   \<not> snd (snd (waitForExit_locked
                (example_running\<lparr>info := (info example_running)\<lparr>MaxRestarts := 0\<rparr>\<rparr>) True 160))"
proof -
  have z: "rMaxRestarts example_request_zero = 0" by (simp add: example_request_zero_def)
  have r: "run (example_process\<lparr>info := (info example_process)\<lparr>MaxRestarts := 0\<rparr>\<rparr>)
       [CallStart (launch_ok 4242)] =
     Some (example_running\<lparr>info := (info example_running)\<lparr>MaxRestarts := 0\<rparr>\<rparr>)"
    by (simp add: example_running_eq Start_def launch_ok_def example_process_def set_Status_def)
  have f: "AutoRestart (info example_running) \<and> Status (info example_running) = StatusRunning \<and>
           RestartCount (info example_running) = 0 \<and> MaxRestarts (info example_running) = 3 \<and>
           cmd example_running \<noteq> None"
    by (simp add: example_running_eq example_process_def)
  have g: "Status (info example_stopping) = StatusStopping"
    by (simp add: example_stopping_eq example_process_def)
  from z r f g New_example_zero
    reaper_restarts_iff[where p = example_running and x = True and t = 160
      and e = "launch_ok 4243" and req = example_request_zero
      and dir = "''/var/log/gemstone''" and ne = example_new_env
      and ?p0.0 = "example_process\<lparr>info := (info example_process)\<lparr>MaxRestarts := 0\<rparr>\<rparr>"
      and evs = "[CallStart (launch_ok 4242)]"
      and q = "example_running\<lparr>info := (info example_running)\<lparr>MaxRestarts := 0\<rparr>\<rparr>"]
    reaper_restarts_iff[where p = example_stopping and x = True and t = 160
      and e = "launch_ok 4243"]
  show ?thesis by simp
qed

subsection \<open>The ring buffers\<close>

lemma step_total: "0 \<le> maxHistory p \<Longrightarrow> \<exists>p'. step p ev = Some p'"
  by (cases ev) (auto simp: CollectStats_def Let_def split: option.split)

lemma step_history:
  assumes "step p ev = Some p'" "0 \<le> maxHistory p" "int (length (statsHistory p)) \<le> maxHistory p"
  shows "statsHistory p' =
         drop (length (statsHistory p @ appended p ev) - nat (maxHistory p)) (statsHistory p @ appended p ev)"
proof (cases ev)
  case (Tick g t)
  show ?thesis
  proof (cases "Stats p g t")
    case None
    with Tick assms show ?thesis by (simp add: CollectStats_def)
  next
    case (Some a)
    show ?thesis
    proof (cases "int (length (statsHistory p @ [a])) > maxHistory p")
      case True
      with assms(3) have eq: "maxHistory p = int (length (statsHistory p))" by simp
      from True assms(2) Tick Some assms(1)
      have "p' = p\<lparr>statsHistory := drop (nat (int (length (statsHistory p @ [a])) - maxHistory p)) (statsHistory p @ [a])\<rparr>"
        by (simp add: CollectStats_def Let_def)
      then show ?thesis using Tick Some by (simp add: eq)
    next
      case False
      with Tick Some assms(1)
      have "p' = p\<lparr>statsHistory := statsHistory p @ [a]\<rparr>"
        by (simp add: CollectStats_def Let_def)
      then show ?thesis using Tick Some False assms(2) by simp
    qed
  qed
next
  case (CallStart e)
  with assms show ?thesis using Start_frame[of p e] by auto
next
  case CallStop
  with assms show ?thesis using Stop_frame[of p] by auto
next
  case StopDeadline
  with assms show ?thesis by (auto simp: Stop_deadline_frame)
next
  case (ChildExit x t)
  with assms show ?thesis using waitForExit_locked_frame[of p x t]
    by (cases "cmd p") auto
next
  case (CallRestart e)
  with assms show ?thesis using Restart_frame[of p e] by auto
qed

lemma step_ring:
  assumes "step p ev = Some p'" "0 \<le> maxHistory p" "int (length (statsHistory p)) \<le> maxHistory p"
  shows "int (length (statsHistory p')) \<le> maxHistory p"
  using step_history[OF assms] assms(2) by simp

lemma drop_drop_append:
  "drop (length (drop (length a - k) a @ b) - k) (drop (length a - k) a @ b) =
   drop (length (a @ b) - k) (a @ b)"
  by (cases "length a \<le> k") (auto simp: add.commute)

lemma run_history:
  assumes "run p evs = Some p'" "0 \<le> maxHistory p"
    "statsHistory p = drop (length acc - nat (maxHistory p)) acc"
  shows "statsHistory p' =
         drop (length (acc @ samples p evs) - nat (maxHistory p)) (acc @ samples p evs) \<and>
         maxHistory p' = maxHistory p"
  using assms
proof (induction evs arbitrary: p acc)
  case Nil
  then show ?case by simp
next
  case (Cons ev evs)
  from Cons.prems(1) obtain q where q: "step p ev = Some q" and r: "run q evs = Some p'"
    by (cases "step p ev") auto
  have len: "int (length (statsHistory p)) \<le> maxHistory p"
    using Cons.prems(2,3) by simp
  have mq: "maxHistory q = maxHistory p" using step_frame[OF q] by simp
  have hq: "statsHistory q =
        drop (length (acc @ appended p ev) - nat (maxHistory q)) (acc @ appended p ev)"
    using step_history[OF q Cons.prems(2) len] Cons.prems(3) drop_drop_append[of acc "nat (maxHistory p)" "appended p ev"]
    by (simp add: mq)
  have "0 \<le> maxHistory q" using mq Cons.prems(2) by simp
  from Cons.IH[OF r this hq] show ?case using q mq by simp
qed

lemma run_total: "0 \<le> maxHistory p \<Longrightarrow> \<exists>p'. run p evs = Some p'"
proof (induction evs arbitrary: p)
  case Nil
  show ?case by simp
next
  case (Cons ev evs)
  from step_total[OF Cons.prems, of ev] obtain q where q: "step p ev = Some q" by blast
  with step_frame[OF q] Cons.prems have "0 \<le> maxHistory q" by simp
  from Cons.IH[OF this] q show ?case by simp
qed

lemma collect_range_total:
  "list_all (\<lambda>kp. 0 \<le> maxHistory (snd kp)) ps \<Longrightarrow> \<exists>ps'. collect_range ps probe now = Some ps'"
proof (induction ps)
  case Nil
  show ?case by simp
next
  case (Cons kp ps)
  obtain k p where kp: "kp = (k, p)" by (cases kp)
  from Cons.prems kp have m: "0 \<le> maxHistory p" and rest: "list_all (\<lambda>kp. 0 \<le> maxHistory (snd kp)) ps"
    by simp_all
  from Cons.IH[OF rest] obtain ps' where ps': "collect_range ps probe now = Some ps'" by blast
  from step_total[OF m, of "Tick (probe (PID (info p))) now"]
  obtain p' where "CollectStats p (probe (PID (info p))) now = Some p'" by auto
  with ps' kp show ?case by simp
qed

lemma collect_Some:
  assumes "collect c m s probe now = Some (c', m')" "0 \<le> cmaxHistory c"
    "int (length (systemStats c)) \<le> cmaxHistory c"
  shows "cmaxHistory c' = cmaxHistory c \<and>
         systemStats c' = drop (length (systemStats c @ [s]) - nat (cmaxHistory c)) (systemStats c @ [s])"
proof (cases "int (length (systemStats c @ [s])) > cmaxHistory c")
  case True
  with assms(3) have eq: "cmaxHistory c = int (length (systemStats c))" by simp
  from True assms(1,2)
  have "c' = c\<lparr>systemStats := drop (nat (int (length (systemStats c @ [s])) - cmaxHistory c)) (systemStats c @ [s])\<rparr>"
    by (cases "CollectAllStats m probe now") (auto simp: collect_def Let_def)
  then show ?thesis by (simp add: eq)
next
  case False
  with assms(1) have "c' = c\<lparr>systemStats := systemStats c @ [s]\<rparr>"
    by (cases "CollectAllStats m probe now") (auto simp: collect_def Let_def)
  then show ?thesis using False assms(2) by simp
qed

lemma collect_total:
  assumes "0 \<le> cmaxHistory c" "list_all (\<lambda>kp. 0 \<le> maxHistory (snd kp)) (processes m)"
  shows "\<exists>c' m'. collect c m s probe now = Some (c', m')"
proof -
  from collect_range_total[OF assms(2), of probe now]
  obtain ps' where "collect_range (processes m) probe now = Some ps'" by blast
  then have "CollectAllStats m probe now = Some (m\<lparr>processes := ps'\<rparr>)"
    by (simp add: CollectAllStats_def)
  with assms(1) show ?thesis by (simp add: collect_def Let_def)
qed

lemma collect_run_history:
  assumes "collect_run c ticks = Some c'" "0 \<le> cmaxHistory c"
    "systemStats c = drop (length acc - nat (cmaxHistory c)) acc"
  shows "systemStats c' =
         drop (length (acc @ map (\<lambda>tick. fst (snd tick)) ticks) - nat (cmaxHistory c))
              (acc @ map (\<lambda>tick. fst (snd tick)) ticks)"
  using assms
proof (induction ticks arbitrary: c acc)
  case Nil
  then show ?case by simp
next
  case (Cons tick ticks)
  obtain m s probe now where tick: "tick = (m, s, probe, now)" by (cases tick)
  from Cons.prems(1) tick obtain c1 m1 where c1: "collect c m s probe now = Some (c1, m1)"
    and r: "collect_run c1 ticks = Some c'"
    by (cases "collect c m s probe now") auto
  have len: "int (length (systemStats c)) \<le> cmaxHistory c"
    using Cons.prems(2,3) by simp
  from collect_Some[OF c1 Cons.prems(2) len]
  have mq: "cmaxHistory c1 = cmaxHistory c"
    and h: "systemStats c1 = drop (length (systemStats c @ [s]) - nat (cmaxHistory c)) (systemStats c @ [s])"
    by simp_all
  have hq: "systemStats c1 = drop (length (acc @ [s]) - nat (cmaxHistory c1)) (acc @ [s])"
    using h Cons.prems(3) drop_drop_append[of acc "nat (cmaxHistory c)" "[s]"]
    by (simp add: mq)
  have "0 \<le> cmaxHistory c1" using mq Cons.prems(2) by simp
  from Cons.IH[OF r this hq] show ?case using tick mq by simp
qed

lemma collect_run_total:
  assumes "0 \<le> cmaxHistory c" "int (length (systemStats c)) \<le> cmaxHistory c"
    "list_all (\<lambda>tick. list_all (\<lambda>kp. 0 \<le> maxHistory (snd kp)) (processes (fst tick))) ticks"
  shows "\<exists>c'. collect_run c ticks = Some c'"
  using assms
proof (induction ticks arbitrary: c)
  case Nil
  show ?case by simp
next
  case (Cons tick ticks)
  obtain m s probe now where tick: "tick = (m, s, probe, now)" by (cases tick)
  from Cons.prems(3) tick have ok: "list_all (\<lambda>kp. 0 \<le> maxHistory (snd kp)) (processes m)"
    and rest: "list_all (\<lambda>tick. list_all (\<lambda>kp. 0 \<le> maxHistory (snd kp)) (processes (fst tick))) ticks"
    by simp_all
  from collect_total[OF Cons.prems(1) ok, of s probe now]
  obtain c1 m1 where c1: "collect c m s probe now = Some (c1, m1)" by blast
  from collect_Some[OF c1 Cons.prems(1,2)] Cons.prems(1)
  have "0 \<le> cmaxHistory c1" "int (length (systemStats c1)) \<le> cmaxHistory c1" by simp_all
  from Cons.IH[OF this rest] c1 tick show ?case by simp
qed

lemma CollectStats_at_capacity:
  assumes "maxHistory p = 1000" "length (statsHistory p) = 1000" "Stats p probe now = Some stats"
  shows "CollectStats p probe now = Some (p\<lparr>statsHistory := tl (statsHistory p) @ [stats]\<rparr>)"
proof -
  from assms(2) have ne: "statsHistory p \<noteq> []" by auto
  then have "drop (Suc 0) (statsHistory p) = tl (statsHistory p)" by (simp add: drop_Suc)
  with assms ne show ?thesis by (simp add: CollectStats_def Let_def)
qed

text \<open>
  Claim C8. For a process made by New or restored by FromConfig, every sequence of events
  runs without a panic and leaves a ring of at most 1000 samples: the last 1000 of the
  samples appended, so that the oldest go first. The ring of host samples of a new collector holds, after any sequence of
  ticks, the last 1000 host samples, and the ticks do not panic as long as no process in the
  map has a negative maxHistory.
\<close>

theorem rings_hold_at_most_1000:
  "(New req dir ne = Inr p0 \<or> FromConfig cfg dir ne = Inr p0 \<longrightarrow>
      (\<exists>p. run p0 evs = Some p \<and> length (statsHistory p) \<le> 1000 \<and>
           statsHistory p = drop (length (samples p0 evs) - 1000) (samples p0 evs))) \<and>
   (collect_run NewCollector ticks = Some c \<longrightarrow>
      length (systemStats c) \<le> 1000 \<and>
      systemStats c =
        drop (length ticks - 1000) (map (\<lambda>tick. fst (snd tick)) ticks)) \<and>
   (list_all (\<lambda>tick. list_all (\<lambda>kp. 0 \<le> maxHistory (snd kp)) (processes (fst tick))) ticks \<longrightarrow>
      collect_run NewCollector ticks \<noteq> None)"
proof (intro conjI impI)
  assume n: "New req dir ne = Inr p0 \<or> FromConfig cfg dir ne = Inr p0"
  then have p0: "maxHistory p0 = 1000" "statsHistory p0 = []"
    using New_fields[of req dir ne p0] FromConfig_fields[of cfg dir ne p0] by auto
  then have "0 \<le> maxHistory p0" by simp
  from run_total[OF this, of evs] obtain p where r: "run p0 evs = Some p" by blast
  from p0 have "statsHistory p0 = drop (length ([]::ProcessStats list) - nat (maxHistory p0)) []"
    by simp
  from run_history[OF r \<open>0 \<le> maxHistory p0\<close> this] p0
  have h: "statsHistory p = drop (length (samples p0 evs) - 1000) (samples p0 evs)" by simp
  then have "length (statsHistory p) \<le> 1000" by simp
  with r h show "\<exists>p. run p0 evs = Some p \<and> length (statsHistory p) \<le> 1000 \<and>
           statsHistory p = drop (length (samples p0 evs) - 1000) (samples p0 evs)" by blast
next
  assume r: "collect_run NewCollector ticks = Some c"
  have "systemStats NewCollector = drop (length ([]::SystemStats list) - nat (cmaxHistory NewCollector)) []"
    by (simp add: NewCollector_def)
  from collect_run_history[OF r _ this]
  have h: "systemStats c =
        drop (length ticks - 1000) (map (\<lambda>tick. fst (snd tick)) ticks)"
    by (simp add: NewCollector_def)
  then have "length (systemStats c) \<le> 1000" by simp
  with h show "length (systemStats c) \<le> 1000" 
    and "systemStats c =
        drop (length ticks - 1000) (map (\<lambda>tick. fst (snd tick)) ticks)" by simp_all
next
  assume "list_all (\<lambda>tick. list_all (\<lambda>kp. 0 \<le> maxHistory (snd kp)) (processes (fst tick))) ticks"
  from collect_run_total[OF _ _ this, of NewCollector]
  show "collect_run NewCollector ticks \<noteq> None" by (auto simp: NewCollector_def)
qed

text \<open>C8 at a run with two ticks, of which the one after Stop appends nothing, and at two
  ticks of the collector.\<close>

theorem rings_hold_at_most_1000_witness:
  "New example_request ''/var/log/gemstone'' example_new_env = Inr example_process \<and>
   (\<exists>p. run example_process [CallStart (launch_ok 4242), Tick None 110, CallStop, Tick None 120] = Some p \<and>
        length (statsHistory p) \<le> 1000 \<and>
        statsHistory p =
          [\<lparr>sID = ''1a2b3c4d'', sPID = 4242, sMemory = 0, sNumThreads = 0, sNumFDs = 0,
            sReadBytes = 0, sWriteBytes = 0, sTimestamp = 110\<rparr>]) \<and>
   collect_run NewCollector
     [(example_Manager, example_host 110, no_probe, 110), (example_Manager, example_host 120, no_probe, 120)]
     = Some (NewCollector\<lparr>systemStats := [example_host 110, example_host 120]\<rparr>) \<and>
   length [example_host 110, example_host 120] \<le> 1000"
proof -
  have s: "samples example_process [CallStart (launch_ok 4242), Tick None 110, CallStop, Tick None 120] =
     [\<lparr>sID = ''1a2b3c4d'', sPID = 4242, sMemory = 0, sNumThreads = 0, sNumFDs = 0,
            sReadBytes = 0, sWriteBytes = 0, sTimestamp = 110\<rparr>]"
    by (simp add: Start_def Stop_def Stats_def CollectStats_def launch_ok_def example_process_def
        set_Status_def Let_def)
  have c: "collect_run NewCollector
     [(example_Manager, example_host 110, no_probe, 110), (example_Manager, example_host 120, no_probe, 120)]
     = Some (NewCollector\<lparr>systemStats := [example_host 110, example_host 120]\<rparr>)"
    by (simp add: collect_def CollectAllStats_def NewCollector_def example_Manager_def
        empty_Manager_def example_process_def Let_def)
  from New_example s c
    rings_hold_at_most_1000[where req = example_request and dir = "''/var/log/gemstone''"
      and ne = example_new_env and ?p0.0 = example_process
      and evs = "[CallStart (launch_ok 4242), Tick None 110, CallStop, Tick None 120]"
      and ticks = "[(example_Manager, example_host 110, no_probe, 110),
                    (example_Manager, example_host 120, no_probe, 120)]"
      and c = "NewCollector\<lparr>systemStats := [example_host 110, example_host 120]\<rparr>"]
  show ?thesis by simp
qed

subsection \<open>Reading logs\<close>

text \<open>
  Claim C4, as amended. A missing file gives the empty sequence and no error. A file that
  is read without error gives, for n above 0, its last n lines, or all of them when it has
  fewer, and so never more than n lines; for n at most 0 it gives all its lines.
\<close>

theorem logs_at_most_n_when_positive:
  "(fs (GetLogs_logFile l t) = NotExist \<longrightarrow> logger_GetLogs l fs n t = Inr []) \<and>
   (fs (GetLogs_logFile l t) = Opened lines False \<longrightarrow>
      logger_GetLogs l fs n t =
        Inr (if n \<le> 0 then lines else drop (length lines - nat n) lines)) \<and>
   (logger_GetLogs l fs n t = Inr ls \<and> 0 < n \<longrightarrow> int (length ls) \<le> n)"
  by (auto simp: logger_GetLogs_def readLastLines_def split: log_file.splits if_splits)

text \<open>C4, the amended statement at a missing stderr.log and a combined.log of three lines.\<close>

theorem logs_at_most_n_when_positive_witness:
  "example_fs (GetLogs_logFile (logger example_process) ''stderr'') = NotExist \<and>
   logger_GetLogs (logger example_process) example_fs 2 ''stderr'' = Inr [] \<and>
   example_fs (GetLogs_logFile (logger example_process) ''combined'') =
     Opened [''[OUT] one'', ''[ERR] two'', ''[OUT] three''] False \<and>
   logger_GetLogs (logger example_process) example_fs 2 ''combined'' =
     Inr [''[ERR] two'', ''[OUT] three''] \<and>
   (0::int) < 2 \<and> int (length [''[ERR] two'', ''[OUT] three'']) \<le> 2"
  using logs_at_most_n_when_positive[where fs = example_fs and l = "logger example_process"
      and t = "''stderr''" and n = 2]
    logs_at_most_n_when_positive[where fs = example_fs and l = "logger example_process"
      and t = "''combined''" and n = 2 and ls = "[''[ERR] two'', ''[OUT] three'']"
      and lines = "[''[OUT] one'', ''[ERR] two'', ''[OUT] three'']"]
  by (simp add: GetLogs_logFile_def example_process_def example_fs_def filepath_Join_def)

text \<open>C4 as first stated fails at n = 0: the two lines of stdout.log are both returned.\<close>

theorem logs_zero_returns_all:
  "logger_GetLogs (logger example_process) example_fs 0 ''stdout'' = Inr [''one'', ''three''] \<and>
   \<not> int (length [''one'', ''three'']) \<le> 0"
  by (simp add: logger_GetLogs_def GetLogs_logFile_def readLastLines_def example_process_def
      example_fs_def filepath_Join_def)

text \<open>
  Claim C10. For a stream selector other than "stdout" and "stderr", GetLogs of the logger
  is the read of combined.log, and the API handler, which passes the query parameter
  through unchanged, answers with what that read gives.
\<close>

theorem other_selector_reads_combined:
  "t \<noteq> ''stdout'' \<and> t \<noteq> ''stderr'' \<longrightarrow>
     logger_GetLogs l fs n t = readLastLines fs (filepath_Join (logDir l) ''combined.log'') n \<and>
     (findProcess m r = Some (k, p) \<longrightarrow>
        getProcessLogs m fs sscanf r t ql =
          (case readLastLines fs (filepath_Join (logDir (logger p)) ''combined.log'')
                  (if ql \<noteq> [] then (case sscanf ql of None \<Rightarrow> 100 | Some v \<Rightarrow> v) else 100) of
             Inl err \<Rightarrow> (500, Inl err)
           | Inr logs \<Rightarrow> (200, Inr logs)))"
  by (simp add: getProcessLogs_def Manager_GetLogs_def GetLogs_def logger_GetLogs_def
      GetLogs_logFile_def)

text \<open>C10 at the selector "junk" and, through the handler, at the empty selector.\<close>

theorem other_selector_reads_combined_witness:
  "''junk'' \<noteq> ''stdout'' \<and> ''junk'' \<noteq> ''stderr'' \<and>
   logger_GetLogs (logger example_process) example_fs 2 ''junk'' = Inr [''[ERR] two'', ''[OUT] three''] \<and>
   findProcess example_Manager ''web'' = Some (''1a2b3c4d'', example_process) \<and>
   getProcessLogs example_Manager example_fs example_sscanf ''web'' [] ''2'' =
     (200, Inr [''[ERR] two'', ''[OUT] three''])"
proof -
  have c: "findProcess example_Manager ''web'' = Some (''1a2b3c4d'', example_process)"
    by (simp add: findProcess_def example_Manager_def empty_Manager_def example_process_def)
  have r: "readLastLines example_fs (filepath_Join (logDir (logger example_process)) ''combined.log'') 2
           = Inr [''[ERR] two'', ''[OUT] three'']"
    by (simp add: readLastLines_def example_fs_def filepath_Join_def example_process_def)
  from c r
    other_selector_reads_combined[of "''junk''" "logger example_process" example_fs 2]
    other_selector_reads_combined[of "[]" "logger example_process" example_fs 2
      example_Manager "''web''" "''1a2b3c4d''" example_process example_sscanf "''2''"]
  show ?thesis by (simp add: example_sscanf_def)
qed

subsection \<open>The Manager\<close>

text \<open>
  Claim C7. When the name is free, New succeeds and the inner Start fails, \<open>Manager.Start\<close>
  returns that error with the map and processes.json as they were: nothing is inserted and
  nothing is written. The one effect it leaves is the log directory that New opened, which
  is no part of the Registry.
\<close>

theorem create_with_failing_Start_changes_nothing:
  assumes "\<not> list_ex (\<lambda>(id', p). Name (info p) = rName req) (processes m)"
    and "New req (mlogDir m) (ce_new e) = Inr proc"
    and "snd (snd (Start proc (ce_start e))) = Inl err"
  shows "Manager_Start m disk req e = (m, disk, [OpenLogFiles (logDir (logger proc))], Inl err)"
proof -
  from Start_cases[of proc "ce_start e"] assms(3)
  obtain proc' where "Start proc (ce_start e) = (proc', [], Inl err)"
    by auto
  with assms(1,2) show ?thesis by (simp add: Manager_Start_def)
qed

text \<open>C7 at the empty Manager, with an exec that fails.\<close>

theorem create_with_failing_Start_changes_nothing_witness:
  "\<not> list_ex (\<lambda>(id', p). Name (info p) = rName example_request) (processes empty_Manager) \<and>
   New example_request (mlogDir empty_Manager) (ce_new (example_create_env ''1a2b3c4d'' launch_fails))
     = Inr example_process \<and>
   snd (snd (Start example_process (ce_start (example_create_env ''1a2b3c4d'' launch_fails))))
     = Inl StartFailed \<and>
   Manager_Start empty_Manager Missing example_request (example_create_env ''1a2b3c4d'' launch_fails)
     = (empty_Manager, Missing, [OpenLogFiles ''/var/log/gemstone/web-1a2b3c4d''], Inl StartFailed)"
proof -
  have a: "\<not> list_ex (\<lambda>(id', p). Name (info p) = rName example_request) (processes empty_Manager)"
    by (simp add: empty_Manager_def)
  have b: "New example_request (mlogDir empty_Manager)
             (ce_new (example_create_env ''1a2b3c4d'' launch_fails)) = Inr example_process"
    using New_example by (simp add: empty_Manager_def example_create_env_def example_new_env_def)
  have c: "snd (snd (Start example_process (ce_start (example_create_env ''1a2b3c4d'' launch_fails))))
             = Inl StartFailed"
    by (simp add: Start_def example_create_env_def launch_fails_def example_process_def)
  from a b c create_with_failing_Start_changes_nothing[OF a b c, of Missing]
  show ?thesis by (simp add: example_process_def)
qed

lemma Manager_Start_NameExists:
  "list_ex (\<lambda>(id', p). Name (info p) = rName req) (processes m) \<Longrightarrow>
   Manager_Start m disk req e = (m, disk, [], Inl (NameExists (rName req)))"
  by (simp add: Manager_Start_def)

lemma update_names:
  "set (map (\<lambda>(id', p). Name (info p)) (AList.update k v ps)) \<subseteq>
   insert (Name (info v)) (set (map (\<lambda>(id', p). Name (info p)) ps))"
  by (induction ps) auto

lemma update_names_distinct:
  assumes "distinct (map (\<lambda>(id', p). Name (info p)) ps)"
    "Name (info v) \<notin> set (map (\<lambda>(id', p). Name (info p)) ps)"
  shows "distinct (map (\<lambda>(id', p). Name (info p)) (AList.update k v ps))"
  using assms
proof (induction ps)
  case Nil
  show ?case by simp
next
  case (Cons a ps)
  obtain k' v' where a: "a = (k', v')" by (cases a)
  show ?case
  proof (cases "k = k'")
    case True
    with a Cons.prems show ?thesis by simp
  next
    case False
    from Cons.prems a have d: "distinct (map (\<lambda>(id', p). Name (info p)) ps)"
      and n: "Name (info v) \<notin> set (map (\<lambda>(id', p). Name (info p)) ps)"
      and f: "Name (info v') \<notin> set (map (\<lambda>(id', p). Name (info p)) ps)"
      and ne: "Name (info v') \<noteq> Name (info v)"
      by auto
    have "Name (info v') \<notin> set (map (\<lambda>(id', p). Name (info p)) (AList.update k v ps))"
    proof
      assume "Name (info v') \<in> set (map (\<lambda>(id', p). Name (info p)) (AList.update k v ps))"
      with update_names[of k v ps]
      have "Name (info v') \<in> insert (Name (info v)) (set (map (\<lambda>(id', p). Name (info p)) ps))"
        by (rule subsetD)
      with f ne show False by simp
    qed
    with Cons.IH[OF d n] a False show ?thesis by simp
  qed
qed

lemma Start_Name: "Name (info (fst (Start p e))) = Name (info p) \<and> ID (info (fst (Start p e))) = ID (info p)"
  using Start_cases[of p e] by (auto simp: set_Status_def)

lemma New_Name: "New req dir ne = Inr p \<Longrightarrow> Name (info p) = rName req"
  by (auto simp: New_def Let_def split: sum.splits)

lemma Manager_Start_names_unique:
  assumes "names_unique m"
  shows "names_unique (fst (Manager_Start m disk req e))"
proof (cases "list_ex (\<lambda>(id', p). Name (info p) = rName req) (processes m)")
  case True
  with assms show ?thesis by (simp add: Manager_Start_def)
next
  case False
  then have fresh: "rName req \<notin> set (map (\<lambda>(id', p). Name (info p)) (processes m))"
    by (auto simp: list_ex_iff)
  show ?thesis
  proof (cases "New req (mlogDir m) (ce_new e)")
    case (Inl err)
    with False assms show ?thesis by (simp add: Manager_Start_def)
  next
    case (Inr proc)
    obtain proc' effs r where s: "Start proc (ce_start e) = (proc', effs, r)"
      by (cases "Start proc (ce_start e)")
    then have nm: "Name (info proc') = rName req"
      using Start_Name[of proc "ce_start e"] New_Name[OF Inr] by simp
    show ?thesis
    proof (cases r)
      case (Inl err)
      with False Inr s assms show ?thesis by (simp add: Manager_Start_def)
    next
      case (Inr u)
      have "fst (Manager_Start m disk req e) =
            m\<lparr>processes := AList.update (ID (info proc')) proc' (processes m)\<rparr>"
        using False \<open>New req (mlogDir m) (ce_new e) = Inr proc\<close> s Inr
        by (simp add: Manager_Start_def Let_def saveProcesses_def)
      then show ?thesis
        using assms fresh nm update_names_distinct[of "processes m" proc' "ID (info proc')"]
        by (simp add: names_unique_def)
    qed
  qed
qed

lemma load_range_names_unique:
  assumes "names_unique m" "distinct (map cName cfgs)"
    "set (map (\<lambda>(id', p). Name (info p)) (processes m)) \<inter> set (map cName cfgs) = {}"
  shows "names_unique (fst (load_range m cfgs i gen))"
  using assms
proof (induction cfgs arbitrary: m i)
  case Nil
  then show ?case by simp
next
  case (Cons cfg rest)
  from Cons.prems(2) have d: "distinct (map cName rest)" and nr: "cName cfg \<notin> set (map cName rest)"
    by simp_all
  from Cons.prems(3) have fresh: "cName cfg \<notin> set (map (\<lambda>(id', p). Name (info p)) (processes m))"
    and dis: "set (map (\<lambda>(id', p). Name (info p)) (processes m)) \<inter> set (map cName rest) = {}"
    by auto
  show ?case
  proof (cases "FromConfig cfg (mlogDir m) (gen i)")
    case (Inl err)
    then have "fst (load_range m (cfg # rest) i gen) = fst (load_range m rest (Suc i) gen)"
      by (simp add: case_prod_beta)
    with Cons.IH[OF Cons.prems(1) d dis] show ?thesis by simp
  next
    case (Inr proc)
    define m' where "m' = m\<lparr>processes := AList.update (ID (info proc)) proc (processes m)\<rparr>"
    from Inr have eq: "fst (load_range m (cfg # rest) i gen) = fst (load_range m' rest (Suc i) gen)"
      by (simp add: case_prod_beta m'_def)
    from FromConfig_fields[OF Inr] have nm: "Name (info proc) = cName cfg" by simp
    have u: "names_unique m'"
      using Cons.prems(1) fresh nm update_names_distinct[of "processes m" proc "ID (info proc)"]
      by (simp add: names_unique_def m'_def)
    have "set (map (\<lambda>(id', p). Name (info p)) (processes m'))
            \<subseteq> insert (cName cfg) (set (map (\<lambda>(id', p). Name (info p)) (processes m)))"
      using update_names[of "ID (info proc)" proc "processes m"] nm by (simp add: m'_def)
    with dis nr
    have dis': "set (map (\<lambda>(id', p). Name (info p)) (processes m')) \<inter> set (map cName rest) = {}"
      by blast
    from Cons.IH[OF u d dis'] eq show ?thesis by simp
  qed
qed

lemma loadProcesses_names_unique:
  assumes "processes m = []" "distinct (map cName cfgs)"
  shows "names_unique (fst (loadProcesses m (Array cfgs) gen))"
proof -
  from assms(1) have "names_unique m" by (simp add: names_unique_def)
  from load_range_names_unique[OF this assms(2), of 0 gen] assms(1)
  show ?thesis by (simp add: loadProcesses_def case_prod_beta)
qed

lemma update_same_name:
  assumes "distinct (map fst ps)" "map_of ps k = Some v0" "Name (info v) = Name (info v0)"
  shows "map (\<lambda>(id', p). Name (info p)) (AList.update k v ps) = map (\<lambda>(id', p). Name (info p)) ps"
  using assms
proof (induction ps)
  case Nil
  then show ?case by simp
next
  case (Cons a ps)
  obtain k' v' where a: "a = (k', v')" by (cases a)
  show ?case
  proof (cases "k = k'")
    case True
    with a Cons.prems show ?thesis by simp
  next
    case False
    with a Cons.prems have "distinct (map fst ps)" "map_of ps k = Some v0" by simp_all
    from Cons.IH[OF this Cons.prems(3)] a False show ?thesis by simp
  qed
qed

lemma update_histories:
  assumes "list_all (\<lambda>kp. 0 \<le> maxHistory (snd kp)) ps" "0 \<le> maxHistory v"
  shows "list_all (\<lambda>kp. 0 \<le> maxHistory (snd kp)) (AList.update k v ps)"
  using assms by (induction ps) auto

lemma delete_histories:
  "list_all (\<lambda>kp. 0 \<le> maxHistory (snd kp)) ps \<Longrightarrow>
   list_all (\<lambda>kp. 0 \<le> maxHistory (snd kp)) (AList.delete k ps)"
  by (induction ps) auto

lemma delete_names:
  "distinct (map (\<lambda>(id', p). Name (info p)) ps) \<Longrightarrow>
   distinct (map (\<lambda>(id', p). Name (info p)) (AList.delete k ps))"
  by (simp add: AList.delete_eq distinct_map_filter)

lemma map_of_histories:
  "list_all (\<lambda>kp. 0 \<le> maxHistory (snd kp)) ps \<Longrightarrow> map_of ps k = Some p \<Longrightarrow> 0 \<le> maxHistory p"
  by (induction ps) (auto split: if_splits)

lemma write_back_inv:
  assumes "registry_inv (m, disk)" "map_of (processes m) k = Some p"
    "Name (info p') = Name (info p)" "0 \<le> maxHistory p'"
  shows "registry_inv (m\<lparr>processes := AList.update k p' (processes m)\<rparr>, disk)"
  using assms update_same_name[of "processes m" k p p'] update_histories[of "processes m" p' k]
  by (simp add: registry_inv_def names_unique_def AList.distinct_update)

lemma Stop_Name: "Name (info (fst (Stop p))) = Name (info p)"
  by (simp add: Stop_def set_Status_def)

lemma waitForExit_locked_Name: "Name (info (fst (waitForExit_locked p x t))) = Name (info p)"
  by (simp add: waitForExit_locked_def set_Status_def Let_def)

lemma poll_Stopped_Name: "Name (info (fst (poll_Stopped k i e p))) = Name (info p)"
proof (induction k arbitrary: i p)
  case 0
  show ?case by simp
next
  case (Suc k)
  define q where "q = (if reap_during e = Some i
                       then fst (waitForExit_locked p (reap_err e) (reap_now e)) else p)"
  have q: "Name (info q) = Name (info p)"
    by (simp add: q_def waitForExit_locked_Name)
  have "fst (poll_Stopped (Suc k) i e p) =
          (if Status (info q) = StatusStopped then q else fst (poll_Stopped k (Suc i) e q))"
    by (simp add: q_def Let_def case_prod_beta)
  with q Suc.IH[of "Suc i" q] show ?case by simp
qed

lemma Restart_Name: "Name (info (fst (Restart p e))) = Name (info p)"
proof (cases "Status (info p) = StatusRunning")
  case False
  then have "Restart p e = Start p (restart_start e)" by (simp add: Restart_def)
  then show ?thesis using Start_Name[of p "restart_start e"] by simp
next
  case True
  then have "fst (Restart p e) =
             fst (Start (fst (poll_Stopped 10 0 e (fst (Stop p)))) (restart_start e))"
    by (simp add: Restart_def Stop_def case_prod_beta)
  then show ?thesis
    using Start_Name[of "fst (poll_Stopped 10 0 e (fst (Stop p)))" "restart_start e"]
      poll_Stopped_Name[of 10 0 e "fst (Stop p)"] Stop_Name[of p]
    by simp
qed

lemma step_Name: "step p ev = Some p' \<Longrightarrow> Name (info p') = Name (info p)"
proof (cases ev)
  case (CallStart e) assume "step p ev = Some p'"
  with CallStart show ?thesis using Start_Name[of p e] by auto
next
  case CallStop assume "step p ev = Some p'"
  with CallStop show ?thesis using Stop_Name[of p] by auto
next
  case StopDeadline assume "step p ev = Some p'"
  with StopDeadline show ?thesis by (auto simp: Stop_deadline_frame)
next
  case (ChildExit x t) assume "step p ev = Some p'"
  with ChildExit show ?thesis using waitForExit_locked_Name[of p x t]
    by (cases "cmd p") auto
next
  case (CallRestart e) assume "step p ev = Some p'"
  with CallRestart show ?thesis using Restart_Name[of p e] by auto
next
  case (Tick g t) assume "step p ev = Some p'"
  with Tick show ?thesis using CollectStats_frame[of p g t p'] by auto
qed

lemma Manager_Stop_inv:
  assumes "registry_inv (m, disk)"
  shows "registry_inv (fst (Manager_Stop m r), disk)"
proof (cases "findProcess m r")
  case None
  with assms show ?thesis by (simp add: Manager_Stop_def)
next
  case (Some kp)
  obtain k p where kp: "kp = (k, p)" by (cases kp)
  from assms have d: "distinct (map fst (processes m))"
    and h: "list_all (\<lambda>kp. 0 \<le> maxHistory (snd kp)) (processes m)"
    by (simp_all add: registry_inv_def)
  from findProcess_map_of[OF d] Some kp have mp: "map_of (processes m) k = Some p" by simp
  from Some kp have "fst (Manager_Stop m r) = m\<lparr>processes := AList.update k (fst (Stop p)) (processes m)\<rparr>"
    by (simp add: Manager_Stop_def case_prod_beta)
  then show ?thesis
    using write_back_inv[OF assms mp Stop_Name] Stop_frame[of p] map_of_histories[OF h mp]
    by simp
qed

lemma Manager_Restart_inv:
  assumes "registry_inv (m, disk)"
  shows "registry_inv (fst (Manager_Restart m r e), disk)"
proof (cases "findProcess m r")
  case None
  with assms show ?thesis by (simp add: Manager_Restart_def)
next
  case (Some kp)
  obtain k p where kp: "kp = (k, p)" by (cases kp)
  from assms have d: "distinct (map fst (processes m))"
    and h: "list_all (\<lambda>kp. 0 \<le> maxHistory (snd kp)) (processes m)"
    by (simp_all add: registry_inv_def)
  from findProcess_map_of[OF d] Some kp have mp: "map_of (processes m) k = Some p" by simp
  from Some kp have "fst (Manager_Restart m r e) =
      m\<lparr>processes := AList.update k (fst (Restart p e)) (processes m)\<rparr>"
    by (simp add: Manager_Restart_def case_prod_beta)
  then show ?thesis
    using write_back_inv[OF assms mp Restart_Name] Restart_frame[of p e] map_of_histories[OF h mp]
    by simp
qed

lemma ProcessEvent_inv:
  assumes "registry_inv (m, disk)"
  shows "\<exists>s'. registry_step (m, disk) (ProcessEvent k ev) = Some s' \<and> registry_inv s'"
proof (cases "map_of (processes m) k")
  case None
  with assms show ?thesis by simp
next
  case (Some p)
  from assms have h: "list_all (\<lambda>kp. 0 \<le> maxHistory (snd kp)) (processes m)"
    by (simp add: registry_inv_def)
  from map_of_histories[OF h Some] have mh: "0 \<le> maxHistory p" .
  from step_total[OF mh, of ev] obtain p' where p': "step p ev = Some p'" by blast
  from step_frame[OF p'] mh have "0 \<le> maxHistory p'" by simp
  from write_back_inv[OF assms Some step_Name[OF p'] this] Some p'
  show ?thesis by simp
qed

lemma saveProcesses_names:
  assumes "names_unique m" "saved_names_unique disk"
  shows "saved_names_unique (fst (saveProcesses m disk write_ok))"
proof (cases write_ok)
  case False
  with assms(2) show ?thesis by (simp add: saveProcesses_def)
next
  case True
  have "map cName (map (\<lambda>(id', p). ToConfig p) (processes m)) =
        map (\<lambda>(id', p). Name (info p)) (processes m)"
    by (induction "processes m") (auto simp: ToConfig_def case_prod_beta)
  with assms(1) have "distinct (map cName (map (\<lambda>(id', p). ToConfig p) (processes m)))"
    by (simp only: names_unique_def)
  with True show ?thesis
    by (simp add: saveProcesses_def saved_names_unique_def del: map_map)
qed

lemma Manager_Start_inv:
  assumes "registry_inv (m, disk)"
  shows "registry_inv (fst (Manager_Start m disk req e), fst (snd (Manager_Start m disk req e)))"
proof (cases "list_ex (\<lambda>(id', p). Name (info p) = rName req) (processes m)")
  case True
  with assms show ?thesis by (simp add: Manager_Start_def)
next
  case False
  then have fresh: "rName req \<notin> set (map (\<lambda>(id', p). Name (info p)) (processes m))"
    by (auto simp: list_ex_iff)
  show ?thesis
  proof (cases "New req (mlogDir m) (ce_new e)")
    case (Inl err)
    with False assms show ?thesis by (simp add: Manager_Start_def)
  next
    case (Inr proc)
    obtain proc' effs r where s: "Start proc (ce_start e) = (proc', effs, r)"
      by (cases "Start proc (ce_start e)")
    then have nm: "Name (info proc') = rName req" and mh: "0 \<le> maxHistory proc'"
      using Start_Name[of proc "ce_start e"] Start_frame[of proc "ce_start e"] New_fields[OF Inr]
      by simp_all
    show ?thesis
    proof (cases r)
      case (Inl err)
      with False Inr s assms show ?thesis by (simp add: Manager_Start_def)
    next
      case (Inr u)
      define m' where "m' = m\<lparr>processes := AList.update (ID (info proc')) proc' (processes m)\<rparr>"
      have res: "fst (Manager_Start m disk req e) = m'"
        "fst (snd (Manager_Start m disk req e)) = fst (saveProcesses m' disk (ce_write_ok e))"
        using False \<open>New req (mlogDir m) (ce_new e) = Inr proc\<close> s Inr
        by (simp_all add: Manager_Start_def Let_def m'_def saveProcesses_def)
      from assms have inv: "distinct (map fst (processes m))" "names_unique m"
        "list_all (\<lambda>kp. 0 \<le> maxHistory (snd kp)) (processes m)" "saved_names_unique disk"
        by (simp_all add: registry_inv_def)
      have u: "names_unique m'"
        using inv(2) fresh nm update_names_distinct[of "processes m" proc' "ID (info proc')"]
        by (simp add: names_unique_def m'_def)
      have k: "distinct (map fst (processes m'))"
        using inv(1) by (simp add: m'_def AList.distinct_update)
      have h: "list_all (\<lambda>kp. 0 \<le> maxHistory (snd kp)) (processes m')"
        using update_histories[OF inv(3) mh] by (simp add: m'_def)
      from u k h saveProcesses_names[OF u inv(4)] res show ?thesis
        by (simp add: registry_inv_def)
    qed
  qed
qed

lemma Manager_Delete_inv:
  assumes "registry_inv (m, disk)"
  shows "registry_inv (fst (Manager_Delete m disk r w), fst (snd (Manager_Delete m disk r w)))"
proof (cases "find (\<lambda>(id', p). id' = r \<or> Name (info p) = r) (processes m)")
  case None
  with assms show ?thesis by (simp add: Manager_Delete_def)
next
  case (Some kp)
  obtain k p where kp: "kp = (k, p)" by (cases kp)
  from assms have inv: "distinct (map fst (processes m))" "names_unique m"
    "list_all (\<lambda>kp. 0 \<le> maxHistory (snd kp)) (processes m)" "saved_names_unique disk"
    by (simp_all add: registry_inv_def)
  from find_map_of[OF inv(1)] Some kp have mp: "map_of (processes m) k = Some p" by simp
  define sp where "sp = (if Status (info p) = StatusRunning then Stop p else (p, [], Inr ()))"
  obtain p' effs res where sp': "sp = (p', effs, res)" by (cases sp)
  have nm: "Name (info p') = Name (info p)" and mh: "0 \<le> maxHistory p'"
    using sp' Stop_Name[of p] Stop_frame[of p] map_of_histories[OF inv(3) mp]
    by (auto simp: sp_def split: if_splits)
  note wb = write_back_inv[OF assms mp nm mh]
  show ?thesis
  proof (cases res)
    case (Inl err)
    with Some kp sp' have "fst (Manager_Delete m disk r w) = m\<lparr>processes := AList.update k p' (processes m)\<rparr>"
      "fst (snd (Manager_Delete m disk r w)) = disk"
      by (simp_all add: Manager_Delete_def sp_def[symmetric])
    with wb show ?thesis by simp
  next
    case (Inr u)
    show ?thesis
    proof (cases "k = []")
      case True
      with Inr Some kp sp'
      have "fst (Manager_Delete m disk r w) = m\<lparr>processes := AList.update k p' (processes m)\<rparr>"
        "fst (snd (Manager_Delete m disk r w)) = disk"
        by (simp_all add: Manager_Delete_def sp_def[symmetric])
      with wb show ?thesis by simp
    next
      case False
      define m' where "m' = m\<lparr>processes := AList.delete k (processes m)\<rparr>"
      from False Inr Some kp sp'
      have res: "fst (Manager_Delete m disk r w) = m'"
        "fst (snd (Manager_Delete m disk r w)) = fst (saveProcesses m' disk w)"
        by (simp_all add: Manager_Delete_def sp_def[symmetric] m'_def Let_def case_prod_beta)
      have u: "names_unique m'"
        using inv(2) delete_names[of "processes m" k] by (simp add: names_unique_def m'_def)
      have kd: "distinct (map fst (processes m'))"
        using inv(1) by (simp add: m'_def AList.distinct_delete)
      have h: "list_all (\<lambda>kp. 0 \<le> maxHistory (snd kp)) (processes m')"
        using delete_histories[OF inv(3)] by (simp add: m'_def)
      from u kd h saveProcesses_names[OF u inv(4)] res show ?thesis
        by (simp add: registry_inv_def)
    qed
  qed
qed

lemma load_range_keys_histories:
  assumes "distinct (map fst (processes m))"
    "list_all (\<lambda>kp. 0 \<le> maxHistory (snd kp)) (processes m)"
  shows "distinct (map fst (processes (fst (load_range m cfgs i gen)))) \<and>
         list_all (\<lambda>kp. 0 \<le> maxHistory (snd kp)) (processes (fst (load_range m cfgs i gen)))"
  using assms
proof (induction cfgs arbitrary: m i)
  case Nil
  then show ?case by simp
next
  case (Cons cfg rest)
  show ?case
  proof (cases "FromConfig cfg (mlogDir m) (gen i)")
    case (Inl err)
    then have "fst (load_range m (cfg # rest) i gen) = fst (load_range m rest (Suc i) gen)"
      by (simp add: case_prod_beta)
    with Cons.IH[OF Cons.prems] show ?thesis by simp
  next
    case (Inr proc)
    define m' where "m' = m\<lparr>processes := AList.update (ID (info proc)) proc (processes m)\<rparr>"
    from Inr have eq: "fst (load_range m (cfg # rest) i gen) = fst (load_range m' rest (Suc i) gen)"
      by (simp add: case_prod_beta m'_def)
    from FromConfig_fields[OF Inr] have "0 \<le> maxHistory proc" by simp
    from update_histories[OF Cons.prems(2) this] Cons.prems(1)
    have "distinct (map fst (processes m'))"
      "list_all (\<lambda>kp. 0 \<le> maxHistory (snd kp)) (processes m')"
      by (simp_all add: m'_def AList.distinct_update)
    from Cons.IH[OF this] eq show ?thesis by simp
  qed
qed

lemma NewManager_inv:
  assumes "saved_names_unique disk"
  shows "\<exists>m'. NewManager d l disk gen = Inr m' \<and> registry_inv (m', disk)"
proof (cases disk)
  case Missing
  with assms show ?thesis
    by (simp add: NewManager_def loadProcesses_def registry_inv_def names_unique_def)
next
  case ReadError
  with assms show ?thesis by (simp add: saved_names_unique_def)
next
  case Malformed
  with assms show ?thesis by (simp add: saved_names_unique_def)
next
  case (Array cfgs)
  define m0 where "m0 = \<lparr>processes = [], dataDir = d, mlogDir = l\<rparr>"
  define m' where "m' = fst (load_range m0 cfgs 0 gen)"
  from Array have nm: "NewManager d l disk gen = Inr m'"
    by (simp add: NewManager_def loadProcesses_def m'_def m0_def case_prod_beta)
  from Array assms have dc: "distinct (map cName cfgs)" by (simp add: saved_names_unique_def)
  have "names_unique m0" by (simp add: names_unique_def m0_def)
  from load_range_names_unique[OF this dc, of 0 gen] have u: "names_unique m'"
    by (simp add: m'_def m0_def)
  from load_range_keys_histories[of m0 cfgs 0 gen]
  have "distinct (map fst (processes m'))" "list_all (\<lambda>kp. 0 \<le> maxHistory (snd kp)) (processes m')"
    by (simp_all add: m'_def m0_def)
  with u assms nm show ?thesis by (simp add: registry_inv_def)
qed

lemma registry_step_inv:
  assumes "registry_inv s"
  shows "\<exists>s'. registry_step s ev = Some s' \<and> registry_inv s'"
proof -
  obtain m disk where s: "s = (m, disk)" by (cases s)
  with assms have inv: "registry_inv (m, disk)" by simp
  show ?thesis
  proof (cases ev)
    case (Create req e)
    with s Manager_Start_inv[OF inv, of req e] show ?thesis by (simp add: case_prod_beta)
  next
    case (Delete r w)
    with s Manager_Delete_inv[OF inv, of r w] show ?thesis by (simp add: case_prod_beta)
  next
    case (StopRef r)
    with s Manager_Stop_inv[OF inv, of r] show ?thesis by (simp add: case_prod_beta)
  next
    case (RestartRef r e)
    with s Manager_Restart_inv[OF inv, of r e] show ?thesis by (simp add: case_prod_beta)
  next
    case (ProcessEvent k pe)
    with s ProcessEvent_inv[OF inv, of k pe] show ?thesis by simp
  next
    case (Reboot gen)
    from inv have "saved_names_unique disk" by (simp add: registry_inv_def)
    from NewManager_inv[OF this, of "dataDir m" "mlogDir m" gen] Reboot s show ?thesis by auto
  qed
qed

lemma registry_run_inv:
  assumes "registry_inv s"
  shows "\<exists>s'. registry_run s evs = Some s' \<and> registry_inv s'"
  using assms
proof (induction evs arbitrary: s)
  case Nil
  then show ?case by simp
next
  case (Cons ev evs)
  from registry_step_inv[OF Cons.prems, of ev] obtain s1
    where s1: "registry_step s ev = Some s1" "registry_inv s1" by blast
  from Cons.IH[OF s1(2)] s1(1) show ?case by simp
qed

text \<open>
  Claim C3. Create answers "already exists" and changes nothing when an entry has the
  requested name, and it keeps the names of the map distinct. Restoring the processes.json
  that \<open>saveProcesses\<close> wrote from a map with distinct names gives a map with distinct
  names. From the empty Registry with no file, every sequence of creates, deletes, stops,
  restarts, process events and restarts of the supervisor runs to a state in which no two
  entries share a name.
\<close>

theorem registry_names_stay_unique:
  "(list_ex (\<lambda>(id', p). Name (info p) = rName req) (processes m) \<longrightarrow>
      Manager_Start m disk req e = (m, disk, [], Inl (NameExists (rName req)))) \<and>
   (names_unique m \<longrightarrow> names_unique (fst (Manager_Start m disk req e))) \<and>
   (names_unique m \<and> NewManager d l (fst (saveProcesses m disk True)) gen = Inr m' \<longrightarrow>
      names_unique m') \<and>
   (\<exists>m'' disk''.
      registry_run (\<lparr>processes = [], dataDir = d, mlogDir = l\<rparr>, Missing) evs = Some (m'', disk'') \<and>
      names_unique m'')"
proof (intro conjI impI)
  assume "list_ex (\<lambda>(id', p). Name (info p) = rName req) (processes m)"
  then show "Manager_Start m disk req e = (m, disk, [], Inl (NameExists (rName req)))"
    by (rule Manager_Start_NameExists)
next
  assume "names_unique m"
  then show "names_unique (fst (Manager_Start m disk req e))"
    by (rule Manager_Start_names_unique)
next
  assume a: "names_unique m \<and> NewManager d l (fst (saveProcesses m disk True)) gen = Inr m'"
  then have "saved_names_unique (fst (saveProcesses m Missing True))"
    using saveProcesses_names[of m Missing True] by (simp add: saved_names_unique_def)
  moreover have "fst (saveProcesses m disk True) = fst (saveProcesses m Missing True)"
    by (simp add: saveProcesses_def)
  ultimately have "saved_names_unique (fst (saveProcesses m disk True))" by simp
  from NewManager_inv[OF this, of d l gen] a show "names_unique m'"
    by (auto simp: registry_inv_def)
next
  have "registry_inv (\<lparr>processes = [], dataDir = d, mlogDir = l\<rparr>, Missing)"
    by (simp add: registry_inv_def names_unique_def saved_names_unique_def)
  from registry_run_inv[OF this, of evs]
  show "\<exists>m'' disk''.
      registry_run (\<lparr>processes = [], dataDir = d, mlogDir = l\<rparr>, Missing) evs = Some (m'', disk'') \<and>
      names_unique m''"
    by (auto simp: registry_inv_def)
qed

text \<open>C3 at a map holding "web": a second "web" is refused, the map is saved and restored,
  and a run of two creates of "web" and a restart of the supervisor ends with one entry.\<close>

theorem registry_names_stay_unique_witness:
  "list_ex (\<lambda>(id', p). Name (info p) = rName example_request) (processes example_Manager) \<and>
   Manager_Start example_Manager Missing example_request (example_create_env ''9f8e7d6c'' (launch_ok 4250))
     = (example_Manager, Missing, [], Inl (NameExists ''web'')) \<and>
   names_unique example_Manager \<and>
   NewManager ''/var/lib/gemstone'' ''/var/log/gemstone''
     (fst (saveProcesses example_Manager Missing True)) example_gen = Inr restored_Manager \<and>
   entry_names restored_Manager = [(''1a2b3c4d'', ''web'')] \<and>
   names_unique restored_Manager \<and>
   (\<exists>m'' disk''.
      registry_run (empty_Manager, Missing)
        [Create example_request (example_create_env ''1a2b3c4d'' (launch_ok 4242)),
         Create example_request (example_create_env ''9f8e7d6c'' (launch_ok 4250)),
         Reboot example_gen] = Some (m'', disk'') \<and>
      names_unique m'') \<and>
   map_option (\<lambda>s. entry_names (fst s))
     (registry_run (empty_Manager, Missing)
        [Create example_request (example_create_env ''1a2b3c4d'' (launch_ok 4242)),
         Create example_request (example_create_env ''9f8e7d6c'' (launch_ok 4250)),
         Reboot example_gen]) = Some [(''1a2b3c4d'', ''web'')]"
proof -
  have a: "list_ex (\<lambda>(id', p). Name (info p) = rName example_request) (processes example_Manager)"
    by (simp add: example_Manager_def empty_Manager_def example_process_def example_request_def)
  have b: "names_unique example_Manager"
    by (simp add: names_unique_def example_Manager_def empty_Manager_def)
  have c: "NewManager ''/var/lib/gemstone'' ''/var/log/gemstone''
     (fst (saveProcesses example_Manager Missing True)) example_gen = Inr restored_Manager"
    by (simp add: NewManager_def loadProcesses_def saveProcesses_def ToConfig_def FromConfig_def
        New_def NewProcessLogger_def filepath_Join_def example_Manager_def empty_Manager_def
        example_process_def example_gen_def restored_Manager_def Let_def)
  have n: "rName example_request = ''web''" by (simp add: example_request_def)
  have en: "entry_names restored_Manager = [(''1a2b3c4d'', ''web'')]"
    by (simp add: entry_names_def restored_Manager_def empty_Manager_def example_process_def)
  have r: "map_option (\<lambda>s. entry_names (fst s))
     (registry_run (empty_Manager, Missing)
        [Create example_request (example_create_env ''1a2b3c4d'' (launch_ok 4242)),
         Create example_request (example_create_env ''9f8e7d6c'' (launch_ok 4250)),
         Reboot example_gen]) = Some [(''1a2b3c4d'', ''web'')]"
    by (simp add: entry_names_def Manager_Start_def New_def Start_def NewProcessLogger_def
        saveProcesses_def ToConfig_def NewManager_def loadProcesses_def FromConfig_def
        empty_Manager_def example_request_def example_create_env_def launch_ok_def
        example_gen_def set_Status_def Let_def)
  from a b c n en r
    registry_names_stay_unique[where m = example_Manager and disk = Missing
      and req = example_request and e = "example_create_env ''9f8e7d6c'' (launch_ok 4250)"
      and d = "''/var/lib/gemstone''" and l = "''/var/log/gemstone''" and gen = example_gen
      and m' = restored_Manager
      and evs = "[Create example_request (example_create_env ''1a2b3c4d'' (launch_ok 4242)),
         Create example_request (example_create_env ''9f8e7d6c'' (launch_ok 4250)),
         Reboot example_gen]"]
  show ?thesis by (simp add: empty_Manager_def)
qed

lemma findProcess_id_first:
  "map_of (processes m) r = Some p \<Longrightarrow> findProcess m r = Some (r, p)"
  by (simp add: findProcess_def)

lemma id_match_first_in_findProcess_users:
  assumes "map_of (processes m) r = Some p"
  shows "Manager_Stop m r =
           (m\<lparr>processes := AList.update r (fst (Stop p)) (processes m)\<rparr>,
            fst (snd (Stop p)), snd (snd (Stop p))) \<and>
         Manager_Restart m r e =
           (m\<lparr>processes := AList.update r (fst (Restart p e)) (processes m)\<rparr>,
            fst (snd (Restart p e)), snd (snd (Restart p e))) \<and>
         Manager_Get m r = Some (info p) \<and>
         Manager_Stats m r probe now = Stats p probe now \<and>
         Manager_GetStatsHistory m r limit = Some (GetStatsHistory p limit) \<and>
         Manager_GetLogs m fs r n t = GetLogs p fs n t"
  using findProcess_id_first[OF assms]
  by (simp add: Manager_Stop_def Manager_Restart_def Manager_Get_def Manager_Stats_def
      Manager_GetStatsHistory_def Manager_GetLogs_def case_prod_beta)

text \<open>
  Claim C5 does not hold of \<open>Delete\<close>. After creating "web", which gets the identifier
  1a2b3c4d, and then a process named "1a2b3c4d", the reference "1a2b3c4d" is the identifier
  of the first and the name of the second. \<open>findProcess\<close> resolves it to the first in
  either order of the map. \<open>Delete\<close> removes the first when the range visits it first,
  and removes the second, matched by name, when the range visits that one first.
\<close>

theorem Delete_takes_name_match_before_id_match:
  "entry_names (fst created_two) = [(''1a2b3c4d'', ''web''), (''9f8e7d6c'', ''1a2b3c4d'')] \<and>
   entry_names (other_order (fst created_two)) =
     [(''9f8e7d6c'', ''1a2b3c4d''), (''1a2b3c4d'', ''web'')] \<and>
   map_option fst (findProcess (other_order (fst created_two)) ''1a2b3c4d'') = Some ''1a2b3c4d'' \<and>
   entry_names (fst (Manager_Delete (other_order (fst created_two)) (fst (snd created_two))
                       ''1a2b3c4d'' True)) =
     [(''1a2b3c4d'', ''web'')] \<and>
   fst (snd (Manager_Delete (other_order (fst created_two)) (fst (snd created_two))
               ''1a2b3c4d'' True)) =
     Array [example_config ''1a2b3c4d'' ''web''] \<and>
   entry_names (fst (Manager_Delete (fst created_two) (fst (snd created_two)) ''1a2b3c4d'' True)) =
     [(''9f8e7d6c'', ''1a2b3c4d'')]"
  by (simp add: entry_names_def other_order_def created_two_def created_one_def Manager_Start_def
      Manager_Delete_def findProcess_def New_def Start_def Stop_def
      NewProcessLogger_def saveProcesses_def empty_Manager_def example_request_def shadow_request_def
      example_create_env_def launch_ok_def set_Status_def Let_def ToConfig_def example_config_def)

end
